theory Spec2Isabelle
  imports Complex_Main
begin

section \<open>Strings and numbers of the source language\<close>

text \<open>
  The sources are TypeScript. A source string is modelled as a \<^typ>\<open>string\<close>; the
  identifiers that are measured and cut (\<open>length\<close>, \<open>substring\<close>) are ASCII account
  numbers, for which one \<^typ>\<open>char\<close> is one code unit of the source string. Literals
  outside ASCII (the Ukrainian titles) are written as their UTF-8 bytes; they are only
  compared and concatenated. \<open>null\<close> and \<open>undefined\<close> are \<^term>\<open>None\<close>.
\<close>

definition substring :: "string \<Rightarrow> nat \<Rightarrow> nat \<Rightarrow> string" where
  \<comment> \<open>\<open>String.prototype.substring(a, b)\<close>: both indices are clamped to the length and
      swapped when \<open>a > b\<close>.\<close>
  "substring s a b =
     (let a' = min a (length s); b' = min b (length s);
          lo = min a' b'; hi = max a' b'
      in take (hi - lo) (drop lo s))"

definition array_includes :: "'a list \<Rightarrow> 'a \<Rightarrow> bool" where
  \<comment> \<open>\<open>Array.prototype.includes\<close> on an array of strings.\<close>
  "array_includes xs x = (x \<in> set xs)"

definition truthy :: "string option \<Rightarrow> bool" where
  \<comment> \<open>Truthiness of a \<open>string | null | undefined\<close>: \<open>null\<close>, \<open>undefined\<close> and the
      empty string are falsy.\<close>
  "truthy v = (case v of None \<Rightarrow> False | Some s \<Rightarrow> s \<noteq> [])"

definition digit :: "nat \<Rightarrow> char" where
  "digit n = ''0123456789'' ! (n mod 10)"

function digits :: "nat \<Rightarrow> string" where
  "digits n = (if n < 10 then [digit n] else digits (n div 10) @ [digit n])"
  by pat_completeness auto
termination
  by (relation "measure (\<lambda>n. n)") auto

definition toString :: "int \<Rightarrow> string" where
  \<comment> \<open>\<open>Number.prototype.toString()\<close> on an integral number.\<close>
  "toString i = (if i < 0 then CHR ''-'' # digits (nat (- i)) else digits (nat i))"

section \<open>AccountClassifier\<close>

text \<open>
  The repository holds three versions of \<open>isTargetAccount\<close>. The first reads the window
  at positions 15 to 18 and has no excluded account; the second adds the excluded
  account \<open>NOVA_POSHTA_ACCOUNT\<close>; the third is the earlier version that read positions
  14 to 17, which the migration script \<open>update-is-target-patterns.ts\<close> calls corrected
  to 15 to 18.
\<close>

definition NON_TARGET_PATTERNS :: "string list" where
  "NON_TARGET_PATTERNS = [''2600'', ''2902'', ''2909'', ''2920'']"

definition NOVA_POSHTA_ACCOUNT :: string where
  "NOVA_POSHTA_ACCOUNT = ''UA813005280000026548000000014''"

definition isTargetAccount :: "string option \<Rightarrow> bool" where
  "isTargetAccount senderAccount =
     (case senderAccount of
        None \<Rightarrow> False
      | Some acc \<Rightarrow>
          if acc = [] \<or> length acc < 19 then False
          else
            let patternSection = substring acc 15 19;
                isNonTarget = array_includes NON_TARGET_PATTERNS patternSection
            in \<not> isNonTarget)"

definition isTargetAccount_excl :: "string option \<Rightarrow> bool" where
  \<comment> \<open>The version with the excluded account.\<close>
  "isTargetAccount_excl senderAccount =
     (case senderAccount of
        None \<Rightarrow> False
      | Some acc \<Rightarrow>
          if acc = [] \<or> length acc < 19 then False
          else if acc = NOVA_POSHTA_ACCOUNT then False
          else
            let patternSection = substring acc 15 19;
                isNonTarget = array_includes NON_TARGET_PATTERNS patternSection
            in \<not> isNonTarget)"

definition isTargetAccount_14 :: "string option \<Rightarrow> bool" where
  \<comment> \<open>The earlier version: window at positions 14 to 17, length guard 18.\<close>
  "isTargetAccount_14 senderAccount =
     (case senderAccount of
        None \<Rightarrow> False
      | Some acc \<Rightarrow>
          if acc = [] \<or> length acc < 18 then False
          else
            let patternSection = substring acc 14 18;
                isNonTarget = array_includes NON_TARGET_PATTERNS patternSection
            in \<not> isNonTarget)"

section \<open>ProductTitleResolver\<close>

record CompanyInfo =
  ci_id :: int
  ci_name :: string
  ci_tax_id :: "string option"

record PaymentInfo =
  pi_id :: int
  pi_description :: "string option"
  pi_amount :: rat
  pi_sender_name :: "string option"

definition title_HDMI_VGA :: string where
  \<comment> \<open>The title for tax id 2593712430: the word of the default title followed by
      \<open>HDMI-VGA\<close>.\<close>
  "title_HDMI_VGA =
     [CHR 0xD0, CHR 0x9F, CHR 0xD0, CHR 0xB5, CHR 0xD1, CHR 0x80, CHR 0xD0, CHR 0xB5,
      CHR 0xD1, CHR 0x85, CHR 0xD1, CHR 0x96, CHR 0xD0, CHR 0xB4, CHR 0xD0, CHR 0xBD,
      CHR 0xD0, CHR 0xB8, CHR 0xD0, CHR 0xBA] @ '' HDMI-VGA''"

definition title_cosmetics :: string where
  \<comment> \<open>The title for tax id 123456789 (two Ukrainian words, "cosmetic goods").\<close>
  "title_cosmetics =
     [CHR 0xD0, CHR 0x9A, CHR 0xD0, CHR 0xBE, CHR 0xD1, CHR 0x81, CHR 0xD0, CHR 0xBC,
      CHR 0xD0, CHR 0xB5, CHR 0xD1, CHR 0x82, CHR 0xD0, CHR 0xB8, CHR 0xD1, CHR 0x87,
      CHR 0xD0, CHR 0xBD, CHR 0xD1, CHR 0x96, CHR 0x20, CHR 0xD1, CHR 0x82, CHR 0xD0,
      CHR 0xBE, CHR 0xD0, CHR 0xB2, CHR 0xD0, CHR 0xB0, CHR 0xD1, CHR 0x80, CHR 0xD0,
      CHR 0xB8]"

definition title_HDMI_RCA :: string where
  \<comment> \<open>The default universal title: the same word followed by \<open>HDMI-RCA\<close>.\<close>
  "title_HDMI_RCA =
     [CHR 0xD0, CHR 0x9F, CHR 0xD0, CHR 0xB5, CHR 0xD1, CHR 0x80, CHR 0xD0, CHR 0xB5,
      CHR 0xD1, CHR 0x85, CHR 0xD1, CHR 0x96, CHR 0xD0, CHR 0xB4, CHR 0xD0, CHR 0xBD,
      CHR 0xD0, CHR 0xB8, CHR 0xD0, CHR 0xBA] @ '' HDMI-RCA''"

definition getUniversalProductTitle :: "PaymentInfo \<Rightarrow> string" where
  \<comment> \<open>The branch that returned the trimmed description is commented out in the source.\<close>
  "getUniversalProductTitle payment = title_HDMI_RCA"

definition getProductTitle :: "CompanyInfo \<Rightarrow> PaymentInfo \<Rightarrow> string" where
  "getProductTitle company payment =
     (if ci_tax_id company = Some ''2593712430'' then title_HDMI_VGA
      else if ci_tax_id company = Some ''123456789'' then title_cosmetics
      else getUniversalProductTitle payment)"

definition getProductCode :: "CompanyInfo \<Rightarrow> PaymentInfo \<Rightarrow> string" where
  "getProductCode company payment = toString (pi_id payment)"

section \<open>Amounts\<close>

text \<open>
  A stored amount is a \<open>DECIMAL(10, 2)\<close>: a rational with two decimal places, the
  number of hundredths below \<open>10 ^ 10\<close> in absolute value.
\<close>

definition decimal_10_2 :: "int \<Rightarrow> rat" where
  "decimal_10_2 k = of_int k / 100"

text \<open>
  Modelled from the spec: \<open>uahToKopiyky\<close> is imported from \<open>@/lib/checkbox-client\<close>,
  which is not among the sources; only its call on \<open>parseFloat(payment.amount)\<close> is.
  The spec gives it as the amount times 100, rounded to the nearest integer; halves go
  up here, as \<open>Math.round\<close> does. The arithmetic is exact (rationals): the rounding
  error of the source's binary floating point is not part of the model.
\<close>

definition uahToKopiyky :: "rat \<Rightarrow> int" where
  "uahToKopiyky amount = \<lfloor>amount * 100 + 1 / 2\<rfloor>"

text \<open>
  Modelled from the spec: the inverse it names, dividing the minor units by 100.
\<close>

definition kopiykyToUah :: "int \<Rightarrow> rat" where
  "kopiykyToUah k = of_int k / 100"

section \<open>Persistent store\<close>

text \<open>
  The tables of \<open>init-db.ts\<close>, a row as a record and a table as the list of its rows in
  insertion order. Nullable columns are options. The \<open>created_at\<close> columns are left
  out: no statement of the two routes reads or writes them. The flags \<open>receipt_issued\<close>
  and \<open>is_target\<close> are given a value by every statement that inserts a row, so they are
  plain booleans. Each \<open>SERIAL\<close> key has its sequence in the store; no statement writes
  an id of its own, so a fresh id never collides with a stored one. In a stored text one
  \<^typ>\<open>char\<close> is one character, which is what \<open>VARCHAR(n)\<close> counts.
\<close>

record company =
  c_id :: int
  c_name :: string
  c_tax_id :: string
  c_address :: "string option"
  pb_merchant_id :: "string option"
  pb_api_token_encrypted :: "string option"
  checkbox_license_key_encrypted :: "string option"
  checkbox_cashier_login :: "string option"
  checkbox_cashier_pin_encrypted :: "string option"

record payment =
  p_id :: int
  p_company_id :: int
  external_id :: "string option"
  amount :: rat
  currency :: "string option"
  description :: "string option"
  sender_account :: "string option"
  sender_name :: "string option"
  sender_tax_id :: "string option"
  document_number :: "string option"
  payment_date :: int
  status :: "string option"
  receipt_issued :: bool
  receipt_id :: "int option"
  is_target :: bool

record receipt =
  r_id :: int
  r_company_id :: int
  r_payment_id :: "int option"
  checkbox_receipt_id :: "string option"
  fiscal_code :: "string option"
  r_amount :: "rat option"
  receipt_url :: "string option"
  pdf_url :: "string option"
  r_status :: "string option"
  issued_at :: "string option"

record store =
  companies :: "company list"
  payments :: "payment list"
  receipts :: "receipt list"
  payments_id_seq :: int
  receipts_id_seq :: int

text \<open>
  Modelled from the spec: the record that \<open>parsePrivatBankTransaction\<close> returns. The
  parser is in \<open>@/lib/privatbank-client\<close>, which is not among the sources; the fields
  are the ones the route reads, and the external id is the bank's transaction id, which
  every transaction has.
\<close>

record parsed_payment =
  x_external_id :: string
  x_amount :: rat
  x_sender_name :: "string option"
  x_sender_account :: "string option"
  x_sender_tax_id :: "string option"
  x_description :: "string option"
  x_payment_date :: int
  x_currency :: "string option"
  x_document_number :: "string option"

record checkbox_receipt =
  cr_id :: string
  cr_fiscal_code :: "string option"
  cr_receipt_url :: "string option"
  cr_pdf_url :: "string option"
  cr_status :: string
  cr_created_at :: string

record good =
  g_code :: string
  g_name :: string
  g_price :: int

record good_item =
  gi_good :: good
  gi_quantity :: int

record payment_leg =
  pl_type :: string
  pl_value :: int

record CheckboxCreateReceiptRequest =
  rq_goods :: "good_item list"
  rq_payments :: "payment_leg list"
  rq_cashier_name :: string
  rq_header :: string
  rq_footer :: string

text \<open>
  The functions the routes import from modules that are not among the sources, and the
  clock, are parameters. A call that throws returns \<^term>\<open>Inl\<close> of the error's message.
  The fetch route imports \<open>isTargetAccount\<close> from \<open>@/lib/account-utils\<close>; which of the
  versions above that module holds is not known, so the classifier is a parameter too.
  \<open>NUM_DOC\<close> is the one field the route reads from a raw transaction. \<open>Date_parse\<close>
  is the time value of \<open>new Date(string)\<close>, with \<^term>\<open>None\<close> for an invalid date.
\<close>

record 'tx externals =
  decrypt :: "string \<Rightarrow> string + string"
  fetchPrivatBankPayments :: "string \<Rightarrow> string \<Rightarrow> int \<Rightarrow> int \<Rightarrow> string + 'tx list"
  parsePrivatBankTransaction :: "'tx \<Rightarrow> string + parsed_payment"
  NUM_DOC :: "'tx \<Rightarrow> string"
  classifier :: "string option \<Rightarrow> bool"
  now :: int
  Date_parse :: "string \<Rightarrow> int option"
  checkboxIssueReceipt ::
    "string \<Rightarrow> string \<Rightarrow> string \<Rightarrow> CheckboxCreateReceiptRequest \<Rightarrow> string + checkbox_receipt"

text \<open>
  The error responses of the two routes, one constructor for each \<open>return\<close> that
  answers with an error; \<open>http_status\<close> and \<open>error_text\<close> give the status and the
  \<open>error\<close> field of the response, and a constructor's argument is the \<open>message\<close>
  field taken from the caught error. \<open>FetchFailed\<close> and \<open>CreateFailed\<close> are the outer
  \<open>catch\<close> of the fetch route and of the receipt route.
\<close>

datatype api_error =
    ValidationError
  | CompanyNotFound
  | BankCredentialsMissing
  | BankFetchFailed string
  | PaymentNotFound
  | AlreadyIssued
  | CredentialsMissing
  | FiscalSubmissionFailed string
  | FetchFailed string
  | CreateFailed string

fun http_status :: "api_error \<Rightarrow> nat" where
  "http_status ValidationError = 400"
| "http_status CompanyNotFound = 404"
| "http_status BankCredentialsMissing = 400"
| "http_status (BankFetchFailed m) = 502"
| "http_status PaymentNotFound = 404"
| "http_status AlreadyIssued = 400"
| "http_status CredentialsMissing = 400"
| "http_status (FiscalSubmissionFailed m) = 502"
| "http_status (FetchFailed m) = 500"
| "http_status (CreateFailed m) = 500"

fun error_text :: "api_error \<Rightarrow> string" where
  "error_text ValidationError = ''Validation error''"
| "error_text CompanyNotFound = ''Company not found''"
| "error_text BankCredentialsMissing = ''PrivatBank credentials not configured''"
| "error_text (BankFetchFailed m) = ''Failed to fetch payments from PrivatBank''"
| "error_text PaymentNotFound = ''Payment not found''"
| "error_text AlreadyIssued = ''Receipt already issued''"
| "error_text CredentialsMissing = ''Checkbox credentials not configured''"
| "error_text (FiscalSubmissionFailed m) = ''Failed to create receipt in Checkbox''"
| "error_text (FetchFailed m) = ''Failed to fetch payments''"
| "error_text (CreateFailed m) = ''Failed to create receipt''"

definition message_or :: "string \<Rightarrow> string \<Rightarrow> string" where
  \<comment> \<open>\<open>apiError.message || dflt\<close>\<close>
  "message_or m dflt = (if m = [] then dflt else m)"

definition or_null :: "string option \<Rightarrow> string option" where
  \<comment> \<open>\<open>value || null\<close>\<close>
  "or_null v = (if truthy v then v else None)"

definition template :: "string option \<Rightarrow> string" where
  \<comment> \<open>A nullable value inside a template literal.\<close>
  "template v = (case v of None \<Rightarrow> ''null'' | Some s \<Rightarrow> s)"

subsection \<open>Column types\<close>

definition int4_max :: int where
  \<comment> \<open>The largest \<open>INTEGER\<close>, which is also where a \<open>SERIAL\<close> sequence ends.\<close>
  "int4_max = 2147483647"

definition integer_out_of_range :: string where
  "integer_out_of_range = ''value is out of range for type integer''"

definition sequence_exhausted :: string where
  "sequence_exhausted = ''nextval: reached maximum value of sequence''"

definition value_too_long :: string where
  "value_too_long = ''value too long for type character varying''"

definition numeric_overflow :: string where
  "numeric_overflow = ''numeric field overflow''"

definition unique_violation :: string where
  "unique_violation =
     ''duplicate key value violates unique constraint '' @ [CHR 0x22] @
     ''payments_external_id_key'' @ [CHR 0x22]"

definition foreign_key_violation :: string where
  "foreign_key_violation = ''insert or update on table violates foreign key constraint''"

definition and_then :: "'e + 'a \<Rightarrow> ('a \<Rightarrow> 'e + 'b) \<Rightarrow> 'e + 'b" where
  \<comment> \<open>The next step of a statement that has not failed yet.\<close>
  "and_then r f = (case r of Inl e \<Rightarrow> Inl e | Inr v \<Rightarrow> f v)"

definition varchar :: "nat \<Rightarrow> string \<Rightarrow> string + string" where
  \<comment> \<open>A value assigned to a \<open>VARCHAR(n)\<close> column: a longer value is an error, unless the
      characters in excess are all spaces, and then it is cut to \<open>n\<close> characters.\<close>
  "varchar n v =
     (if length v \<le> n then Inr v
      else if list_all (\<lambda>c. c = CHR 0x20) (drop n v) then Inr (take n v)
      else Inl value_too_long)"

definition varchar_null :: "nat \<Rightarrow> string option \<Rightarrow> string + string option" where
  "varchar_null n v =
     (case v of None \<Rightarrow> Inr None | Some x \<Rightarrow> and_then (varchar n x) (\<lambda>y. Inr (Some y)))"

definition numeric_10_2 :: "rat \<Rightarrow> string + rat" where
  \<comment> \<open>A value assigned to a \<open>DECIMAL(10, 2)\<close> column: rounded to two decimals, a half
      away from zero; an error when the result needs more than eight digits before the
      point.\<close>
  "numeric_10_2 a =
     (let k = (if 0 \<le> a then \<lfloor>a * 100 + 1 / 2\<rfloor> else - \<lfloor>- a * 100 + 1 / 2\<rfloor>)
      in if \<bar>k\<bar> < 10 ^ 10 then Inr (of_int k / 100) else Inl numeric_overflow)"

subsection \<open>Statements\<close>

definition select_company :: "store \<Rightarrow> int \<Rightarrow> company list" where
  \<comment> \<open>\<open>SELECT ... FROM companies WHERE id = companyId\<close>\<close>
  "select_company s companyId = filter (\<lambda>c. c_id c = companyId) (companies s)"

definition select_existing_payment :: "store \<Rightarrow> string \<Rightarrow> int \<Rightarrow> payment list" where
  \<comment> \<open>\<open>SELECT id FROM payments WHERE external_id = ... AND company_id = ... LIMIT 1\<close>\<close>
  "select_existing_payment s ext companyId =
     take 1 (filter (\<lambda>p. external_id p = Some ext \<and> p_company_id p = companyId) (payments s))"

definition new_payment_row :: "int \<Rightarrow> int \<Rightarrow> parsed_payment \<Rightarrow> bool \<Rightarrow> string + payment" where
  \<comment> \<open>The row of the \<open>INSERT INTO payments\<close> of the fetch route, each value brought to the
      type of its column, or the error of the first value that does not fit. \<open>status\<close>
      takes its default and \<open>receipt_id\<close> stays \<open>NULL\<close>.\<close>
  "new_payment_row new_id companyId payment target =
     and_then (varchar 255 (x_external_id payment)) (\<lambda>ext_id.
     and_then (numeric_10_2 (x_amount payment)) (\<lambda>amt.
     and_then (varchar_null 3 (x_currency payment)) (\<lambda>cur.
     and_then (varchar_null 50 (x_sender_account payment)) (\<lambda>account.
     and_then (varchar_null 255 (x_sender_name payment)) (\<lambda>name.
     and_then (varchar_null 50 (x_sender_tax_id payment)) (\<lambda>tax.
     and_then (varchar_null 100 (x_document_number payment)) (\<lambda>doc.
       Inr \<lparr>p_id = new_id, p_company_id = companyId,
            external_id = Some ext_id,
            amount = amt,
            currency = cur,
            description = x_description payment,
            sender_account = account,
            sender_name = name,
            sender_tax_id = tax,
            document_number = doc,
            payment_date = x_payment_date payment,
            status = Some ''pending'',
            receipt_issued = False,
            receipt_id = None,
            is_target = target\<rparr>)))))))"

definition insert_payment :: "store \<Rightarrow> int \<Rightarrow> parsed_payment \<Rightarrow> bool \<Rightarrow> store \<times> (string + int)" where
  \<comment> \<open>\<open>INSERT INTO payments\<close>. The id is drawn from the sequence, the values are brought
      to the types of their columns, and then the constraints are checked: \<open>external_id\<close> is
      \<open>UNIQUE\<close> over the whole table and \<open>company_id\<close> references \<open>companies(id)\<close>. An id
      that was drawn is not given back when the statement fails.\<close>
  "insert_payment s companyId payment target =
     (if int4_max < payments_id_seq s then (s, Inl sequence_exhausted)
      else
        let new_id = payments_id_seq s;
            s1 = s\<lparr>payments_id_seq := new_id + 1\<rparr>
        in case new_payment_row new_id companyId payment target of
             Inl m \<Rightarrow> (s1, Inl m)
           | Inr row \<Rightarrow>
               if list_ex (\<lambda>p. external_id p = external_id row) (payments s)
               then (s1, Inl unique_violation)
               else if \<not> list_ex (\<lambda>c. c_id c = companyId) (companies s)
               then (s1, Inl foreign_key_violation)
               else (s1\<lparr>payments := payments s @ [row]\<rparr>, Inr new_id))"

definition select_payment_with_company :: "store \<Rightarrow> int \<Rightarrow> (payment \<times> company) list" where
  \<comment> \<open>\<open>SELECT ... FROM payments p INNER JOIN companies c ON p.company_id = c.id
      WHERE p.id = paymentId\<close>\<close>
  "select_payment_with_company s paymentId =
     concat (map (\<lambda>p. map (\<lambda>c. (p, c)) (filter (\<lambda>c. c_id c = p_company_id p) (companies s)))
                 (filter (\<lambda>p. p_id p = paymentId) (payments s)))"

definition new_receipt_row ::
  "int \<Rightarrow> payment \<Rightarrow> int \<Rightarrow> checkbox_receipt \<Rightarrow> string + receipt" where
  \<comment> \<open>The row of the \<open>INSERT INTO receipts\<close> of the receipt route, each value brought to
      the type of its column, or the error of the first value that does not fit.
      \<open>issued_at\<close> holds the creation timestamp of the fiscal service as it was sent.\<close>
  "new_receipt_row new_id payment paymentId checkboxReceipt =
     and_then (varchar 255 (cr_id checkboxReceipt)) (\<lambda>receipt_ref.
     and_then (varchar_null 100 (or_null (cr_fiscal_code checkboxReceipt))) (\<lambda>code.
     and_then (numeric_10_2 (amount payment)) (\<lambda>amt.
     and_then (varchar 20 (cr_status checkboxReceipt)) (\<lambda>st.
       Inr \<lparr>r_id = new_id, r_company_id = p_company_id payment,
            r_payment_id = Some paymentId,
            checkbox_receipt_id = Some receipt_ref,
            fiscal_code = code,
            r_amount = Some amt,
            receipt_url = or_null (cr_receipt_url checkboxReceipt),
            pdf_url = or_null (cr_pdf_url checkboxReceipt),
            r_status = Some st,
            issued_at = Some (cr_created_at checkboxReceipt)\<rparr>))))"

definition insert_receipt :: "store \<Rightarrow> payment \<Rightarrow> int \<Rightarrow> checkbox_receipt \<Rightarrow> store \<times> (string + int)" where
  \<comment> \<open>\<open>INSERT INTO receipts ... RETURNING id\<close>. \<open>company_id\<close> and \<open>payment_id\<close> are
      foreign keys; the table has no \<open>UNIQUE\<close> column and \<open>idx_receipts_payment_id\<close> is
      a plain index.\<close>
  "insert_receipt s payment paymentId checkboxReceipt =
     (if int4_max < receipts_id_seq s then (s, Inl sequence_exhausted)
      else
        let new_id = receipts_id_seq s;
            s1 = s\<lparr>receipts_id_seq := new_id + 1\<rparr>
        in case new_receipt_row new_id payment paymentId checkboxReceipt of
             Inl m \<Rightarrow> (s1, Inl m)
           | Inr row \<Rightarrow>
               if \<not> list_ex (\<lambda>c. c_id c = p_company_id payment) (companies s)
                  \<or> \<not> list_ex (\<lambda>p. p_id p = paymentId) (payments s)
               then (s1, Inl foreign_key_violation)
               else (s1\<lparr>receipts := receipts s @ [row]\<rparr>, Inr new_id))"

definition update_receipt_issued :: "store \<Rightarrow> int \<Rightarrow> store" where
  \<comment> \<open>\<open>UPDATE payments SET receipt_issued = true WHERE id = paymentId\<close>\<close>
  "update_receipt_issued s paymentId =
     s\<lparr>payments := map (\<lambda>p. if p_id p = paymentId then p\<lparr>receipt_issued := True\<rparr> else p)
                        (payments s)\<rparr>"

section \<open>PaymentIngestionPipeline\<close>

record summary =
  total_fetched :: nat
  new_payments :: nat
  duplicates :: nat
  errors :: "string list"

definition failed_to_process :: "string \<Rightarrow> string \<Rightarrow> string" where
  "failed_to_process num_doc m = ''Failed to process payment '' @ num_doc @ '': '' @ m"

definition process_transaction ::
  "'tx externals \<Rightarrow> int \<Rightarrow> 'tx \<Rightarrow> store \<times> nat \<times> nat \<times> string list
     \<Rightarrow> store \<times> nat \<times> nat \<times> string list" where
  \<comment> \<open>The body of the loop, on the store and the three tallies. Whatever is thrown inside
      the body is caught and pushed on the error list.\<close>
  "process_transaction ext companyId tx acc =
     (case acc of (s, newPayments, dups, errs) \<Rightarrow>
        (case parsePrivatBankTransaction ext tx of
           Inl m \<Rightarrow> (s, newPayments, dups, errs @ [failed_to_process (NUM_DOC ext tx) m])
         | Inr payment \<Rightarrow>
             if select_existing_payment s (x_external_id payment) companyId \<noteq> []
             then (s, newPayments, dups + 1, errs)
             else
               (case insert_payment s companyId payment
                       (classifier ext (x_sender_account payment)) of
                  (s1, Inl m) \<Rightarrow>
                    (s1, newPayments, dups, errs @ [failed_to_process (NUM_DOC ext tx) m])
                | (s1, Inr new_id) \<Rightarrow> (s1, newPayments + 1, dups, errs))))"

fun process_transactions ::
  "'tx externals \<Rightarrow> int \<Rightarrow> 'tx list \<Rightarrow> store \<times> nat \<times> nat \<times> string list
     \<Rightarrow> store \<times> nat \<times> nat \<times> string list" where
  "process_transactions ext companyId [] acc = acc"
| "process_transactions ext companyId (tx # txs) acc =
     process_transactions ext companyId txs (process_transaction ext companyId tx acc)"

definition ingest_transactions :: "'tx externals \<Rightarrow> int \<Rightarrow> 'tx list \<Rightarrow> store \<Rightarrow> store \<times> summary" where
  \<comment> \<open>The route from the fetched transactions on: the loop and the summary.\<close>
  "ingest_transactions ext companyId transactions s =
     (case process_transactions ext companyId transactions (s, 0, 0, []) of
        (s1, newPayments, dups, errs) \<Rightarrow>
          (s1, \<lparr>total_fetched = length transactions, new_payments = newPayments,
                duplicates = dups, errors = errs\<rparr>))"

definition valid_time :: "int \<Rightarrow> int option" where
  \<comment> \<open>The time value of a \<open>Date\<close> built from a number of milliseconds: invalid beyond
      the range of the type.\<close>
  "valid_time t = (if \<bar>t\<bar> \<le> 8640000000000000 then Some t else None)"

definition fetch_route ::
  "'tx externals \<Rightarrow> store \<Rightarrow> int \<Rightarrow> string option \<Rightarrow> string option
     \<Rightarrow> store \<times> (api_error + summary)" where
  \<comment> \<open>\<open>POST /api/integrations/privatbank/fetch\<close>. The company id is validated as a
      positive integer; one that is no \<open>INTEGER\<close> makes the query throw. An invalid date
      throws in \<open>toISOString\<close>, after the token was decrypted and before the bank is
      called.\<close>
  "fetch_route ext s companyId startDate endDate =
     (if companyId \<le> 0 then (s, Inl ValidationError)
      else if int4_max < companyId then (s, Inl (FetchFailed integer_out_of_range))
      else case select_company s companyId of
        [] \<Rightarrow> (s, Inl CompanyNotFound)
      | company # _ \<Rightarrow>
          (case (pb_merchant_id company, pb_api_token_encrypted company) of
             (Some merchantId, Some token) \<Rightarrow>
               if merchantId = [] \<or> token = [] then (s, Inl BankCredentialsMissing)
               else
                 (case decrypt ext token of
                    Inl m \<Rightarrow> (s, Inl (FetchFailed m))
                  | Inr apiToken \<Rightarrow>
                      let end_date =
                            (if truthy endDate then Date_parse ext (template endDate)
                             else Some (now ext));
                          start_date =
                            (if truthy startDate then Date_parse ext (template startDate)
                             else case end_date of
                                    None \<Rightarrow> None
                                  | Some e \<Rightarrow> valid_time (e - 30 * 24 * 60 * 60 * 1000))
                      in (case (start_date, end_date) of
                            (Some start_time, Some end_time) \<Rightarrow>
                              (case fetchPrivatBankPayments ext merchantId apiToken
                                      start_time end_time of
                                 Inl m \<Rightarrow>
                                   (s, Inl (BankFetchFailed
                                              (message_or m ''API request failed'')))
                               | Inr transactions \<Rightarrow>
                                   (case ingest_transactions ext companyId transactions s of
                                      (s1, result) \<Rightarrow> (s1, Inr result)))
                          | _ \<Rightarrow> (s, Inl (FetchFailed ''Invalid time value''))))
           | _ \<Rightarrow> (s, Inl BankCredentialsMissing)))"

section \<open>ReceiptIssuanceWorkflow\<close>

record issued =
  is_receipt_id :: int
  is_checkbox_receipt :: checkbox_receipt
  is_payment_id :: int
  is_amount :: rat
  is_sender_name :: "string option"
  is_description :: "string option"

definition header_prefix :: string where
  \<comment> \<open>The Ukrainian words "payment from", a colon and a space.\<close>
  "header_prefix =
     [CHR 0xD0, CHR 0x9F, CHR 0xD0, CHR 0xBB, CHR 0xD0, CHR 0xB0, CHR 0xD1, CHR 0x82,
      CHR 0xD1, CHR 0x96, CHR 0xD0, CHR 0xB6, CHR 0x20, CHR 0xD0, CHR 0xB2, CHR 0xD1,
      CHR 0x96, CHR 0xD0, CHR 0xB4, CHR 0x3A, CHR 0x20]"

definition footer_text :: string where
  \<comment> \<open>The Ukrainian sentence "thank you for the cooperation".\<close>
  "footer_text =
     [CHR 0xD0, CHR 0x94, CHR 0xD1, CHR 0x8F, CHR 0xD0, CHR 0xBA, CHR 0xD1, CHR 0x83,
      CHR 0xD1, CHR 0x94, CHR 0xD0, CHR 0xBC, CHR 0xD0, CHR 0xBE, CHR 0x20, CHR 0xD0,
      CHR 0xB7, CHR 0xD0, CHR 0xB0, CHR 0x20, CHR 0xD1, CHR 0x81, CHR 0xD0, CHR 0xBF,
      CHR 0xD1, CHR 0x96, CHR 0xD0, CHR 0xB2, CHR 0xD0, CHR 0xBF, CHR 0xD1, CHR 0x80,
      CHR 0xD0, CHR 0xB0, CHR 0xD1, CHR 0x86, CHR 0xD1, CHR 0x8E, CHR 0x21]"

definition receiptData :: "payment \<Rightarrow> company \<Rightarrow> CheckboxCreateReceiptRequest" where
  \<comment> \<open>The request the route prepares from the joined row. \<open>companyInfo\<close> is built from
      the id and the name alone: the query does not select the tax id.\<close>
  "receiptData payment crow =
     (let amountInKopiyky = uahToKopiyky (amount payment);
          companyInfo = \<lparr>ci_id = p_company_id payment, ci_name = c_name crow,
                         ci_tax_id = None\<rparr>;
          paymentInfo = \<lparr>pi_id = p_id payment, pi_description = description payment,
                         pi_amount = amount payment, pi_sender_name = sender_name payment\<rparr>
      in \<lparr>rq_goods =
            [\<lparr>gi_good = \<lparr>g_code = getProductCode companyInfo paymentInfo,
                          g_name = getProductTitle companyInfo paymentInfo,
                          g_price = amountInKopiyky\<rparr>,
              gi_quantity = 1000\<rparr>],
          rq_payments = [\<lparr>pl_type = ''CASHLESS'', pl_value = amountInKopiyky\<rparr>],
          rq_cashier_name = c_name crow,
          rq_header = header_prefix @ template (sender_name payment),
          rq_footer = footer_text\<rparr>)"

definition create_route :: "'tx externals \<Rightarrow> store \<Rightarrow> int \<Rightarrow> store \<times> (api_error + issued)" where
  \<comment> \<open>\<open>POST /api/receipts/create\<close>. The payment id is validated as a positive integer;
      one that is no \<open>INTEGER\<close> makes the query throw. Whatever is thrown outside the
      call of the fiscal service ends in the outer \<open>catch\<close>.\<close>
  "create_route ext s paymentId =
     (if paymentId \<le> 0 then (s, Inl ValidationError)
      else if int4_max < paymentId then (s, Inl (CreateFailed integer_out_of_range))
      else case select_payment_with_company s paymentId of
        [] \<Rightarrow> (s, Inl PaymentNotFound)
      | (payment, crow) # _ \<Rightarrow>
          if receipt_issued payment then (s, Inl AlreadyIssued)
          else
            (case (checkbox_license_key_encrypted crow, checkbox_cashier_login crow,
                   checkbox_cashier_pin_encrypted crow) of
               (Some license_encrypted, Some cashierLogin, Some pin_encrypted) \<Rightarrow>
                 if license_encrypted = [] \<or> cashierLogin = [] \<or> pin_encrypted = []
                 then (s, Inl CredentialsMissing)
                 else
                   (case decrypt ext license_encrypted of
                      Inl m \<Rightarrow> (s, Inl (CreateFailed m))
                    | Inr licenseKey \<Rightarrow>
                   (case decrypt ext pin_encrypted of
                      Inl m \<Rightarrow> (s, Inl (CreateFailed m))
                    | Inr cashierPin \<Rightarrow>
                   (case checkboxIssueReceipt ext cashierLogin cashierPin licenseKey
                           (receiptData payment crow) of
                      Inl m \<Rightarrow>
                        (s, Inl (FiscalSubmissionFailed (message_or m ''API request failed'')))
                    | Inr checkboxReceipt \<Rightarrow>
                   (case insert_receipt s payment paymentId checkboxReceipt of
                      (s1, Inl m) \<Rightarrow> (s1, Inl (CreateFailed m))
                    | (s1, Inr receiptId) \<Rightarrow>
                        (update_receipt_issued s1 paymentId,
                         Inr \<lparr>is_receipt_id = receiptId, is_checkbox_receipt = checkboxReceipt,
                              is_payment_id = p_id payment, is_amount = amount payment,
                              is_sender_name = sender_name payment,
                              is_description = description payment\<rparr>)))))
             | _ \<Rightarrow> (s, Inl CredentialsMissing)))"

section \<open>Constraints and example data\<close>

text \<open>
  The constraints of the schema that the receipt route relies on when it looks a payment
  up: the primary keys of \<open>payments\<close> and \<open>companies\<close>, the ids of a \<open>SERIAL\<close>
  column, which are positive values of \<open>INTEGER\<close>, and the foreign key from a payment to
  its company.
\<close>

definition store_wf :: "store \<Rightarrow> bool" where
  "store_wf s \<longleftrightarrow>
     distinct (map p_id (payments s))
     \<and> distinct (map c_id (companies s))
     \<and> list_all (\<lambda>p. 0 < p_id p \<and> p_id p \<le> int4_max) (payments s)
     \<and> list_all (\<lambda>p. list_ex (\<lambda>c. c_id c = p_company_id p) (companies s)) (payments s)"

definition receipt_refs :: "store \<Rightarrow> int list" where
  \<comment> \<open>The payment ids the receipts reference, one entry for each receipt that has one.\<close>
  "receipt_refs s = List.map_filter r_payment_id (receipts s)"

definition receipts_flagged :: "store \<Rightarrow> bool" where
  \<comment> \<open>Every payment that a receipt references is marked as issued.\<close>
  "receipts_flagged s =
     list_all (\<lambda>p. p_id p \<in> set (receipt_refs s) \<longrightarrow> receipt_issued p) (payments s)"

definition store_inv :: "store \<Rightarrow> bool" where
  \<comment> \<open>At most one receipt for each payment, every referenced payment marked, and the
      ids in use below the sequence of the payments table.\<close>
  "store_inv s \<longleftrightarrow>
     distinct (receipt_refs s)
     \<and> receipts_flagged s
     \<and> list_all (\<lambda>p. p_id p < payments_id_seq s) (payments s)
     \<and> list_all (\<lambda>i. i < payments_id_seq s) (receipt_refs s)"

definition stored_for :: "store \<Rightarrow> int \<Rightarrow> string \<Rightarrow> bool" where
  \<comment> \<open>The company has a payment with this external id.\<close>
  "stored_for s companyId ext =
     list_ex (\<lambda>p. external_id p = Some ext \<and> p_company_id p = companyId) (payments s)"

definition ext_taken :: "store \<Rightarrow> string \<Rightarrow> bool" where
  \<comment> \<open>Some payment, of any company, has this external id.\<close>
  "ext_taken s ext = list_ex (\<lambda>p. external_id p = Some ext) (payments s)"

definition company_exists :: "store \<Rightarrow> int \<Rightarrow> bool" where
  "company_exists s companyId = list_ex (\<lambda>c. c_id c = companyId) (companies s)"

definition is_stored :: "'tx externals \<Rightarrow> store \<Rightarrow> int \<Rightarrow> 'tx \<Rightarrow> bool" where
  \<comment> \<open>The raw transaction parses and the company has a payment with its external id.\<close>
  "is_stored ext s companyId tx =
     (case parsePrivatBankTransaction ext tx of
        Inl m \<Rightarrow> False
      | Inr payment \<Rightarrow> stored_for s companyId (x_external_id payment))"

definition stored_external_id :: "parsed_payment \<Rightarrow> string option" where
  \<comment> \<open>The external id as the column would hold it, if the column takes it.\<close>
  "stored_external_id p =
     (case varchar 255 (x_external_id p) of Inl m \<Rightarrow> None | Inr e \<Rightarrow> Some e)"

definition insertable :: "store \<Rightarrow> int \<Rightarrow> parsed_payment \<Rightarrow> bool" where
  \<comment> \<open>The \<open>INSERT\<close> of this payment for this company would succeed: an id is left, the
      values fit their columns, no payment holds the external id, the company exists.\<close>
  "insertable s companyId p \<longleftrightarrow>
     payments_id_seq s \<le> int4_max
     \<and> \<not> isl (new_payment_row 0 0 p False)
     \<and> (case stored_external_id p of None \<Rightarrow> False | Some e \<Rightarrow> \<not> ext_taken s e)
     \<and> company_exists s companyId"

definition id_fits :: "'tx externals \<Rightarrow> 'tx \<Rightarrow> bool" where
  \<comment> \<open>The external id of the transaction, if it parses, is not longer than its column.\<close>
  "id_fits ext tx =
     (case parsePrivatBankTransaction ext tx of
        Inl m \<Rightarrow> True
      | Inr payment \<Rightarrow> length (x_external_id payment) \<le> 255)"

definition at_turn ::
  "'tx externals \<Rightarrow> int \<Rightarrow> 'tx list \<Rightarrow> store \<Rightarrow> store \<times> nat \<times> nat \<times> string list" where
  \<comment> \<open>The store and the tallies of the loop when the transactions \<open>pre\<close> of a batch are
      done and the next one is about to be processed.\<close>
  "at_turn ext companyId pre s = process_transactions ext companyId pre (s, 0, 0, [])"

definition demo_company :: "int \<Rightarrow> company" where
  "demo_company i =
     \<lparr>c_id = i, c_name = ''Company '' @ toString i, c_tax_id = ''1234567'' @ toString i,
      c_address = None, pb_merchant_id = Some ''MERCHANT'',
      pb_api_token_encrypted = Some ''token-ciphertext'',
      checkbox_license_key_encrypted = Some ''license-ciphertext'',
      checkbox_cashier_login = Some ''cashier'',
      checkbox_cashier_pin_encrypted = Some ''pin-ciphertext''\<rparr>"

definition demo_store :: store where
  \<comment> \<open>Two companies, no payments, no receipts.\<close>
  "demo_store =
     \<lparr>companies = [demo_company 1, demo_company 2], payments = [], receipts = [],
      payments_id_seq = 1, receipts_id_seq = 1\<rparr>"

definition demo_payment :: parsed_payment where
  "demo_payment =
     \<lparr>x_external_id = ''PB_TXN_001'', x_amount = 1500,
      x_sender_name = Some ''Sender'',
      x_sender_account = Some ''UA783220010000012345678901234'',
      x_sender_tax_id = None, x_description = Some ''Invoice 123'',
      x_payment_date = 1700000000000, x_currency = Some ''UAH'',
      x_document_number = Some ''77''\<rparr>"

definition demo_payment_2 :: parsed_payment where
  "demo_payment_2 = demo_payment\<lparr>x_external_id := ''PB_TXN_002'', x_amount := 2800.5\<rparr>"

definition demo_long_payment :: parsed_payment where
  \<comment> \<open>An external id of 256 characters, the last one a space.\<close>
  "demo_long_payment = demo_payment\<lparr>x_external_id := replicate 255 (CHR ''A'') @ '' ''\<rparr>"

definition demo_checkbox_receipt :: checkbox_receipt where
  "demo_checkbox_receipt =
     \<lparr>cr_id = ''CHK_RCP_001'', cr_fiscal_code = Some ''1234567890'',
      cr_receipt_url = None, cr_pdf_url = Some ''https://example.com/receipt.pdf'',
      cr_status = ''DONE'', cr_created_at = ''2024-01-01T00:00:00Z''\<rparr>"

text \<open>
  Example externals. A raw transaction is given by what the parser does with it:
  \<^term>\<open>Inr p\<close> is a transaction parsed into \<open>p\<close>, \<^term>\<open>Inl m\<close> one on which the
  parser throws with message \<open>m\<close>. The bank returns the given transactions, decryption
  succeeds, and the fiscal service answers with the given result.
\<close>

definition demo_externals ::
  "(string + parsed_payment) list \<Rightarrow> string + checkbox_receipt
     \<Rightarrow> (string + parsed_payment) externals" where
  "demo_externals txs fiscal =
     \<lparr>decrypt = (\<lambda>c. Inr (''plain-'' @ c)),
      fetchPrivatBankPayments = (\<lambda>merchantId token start_date end_date. Inr txs),
      parsePrivatBankTransaction = (\<lambda>tx. tx),
      NUM_DOC = (\<lambda>tx. case tx of Inl m \<Rightarrow> ''undefined''
                       | Inr p \<Rightarrow> template (x_document_number p)),
      classifier = isTargetAccount,
      now = 1700000000000,
      Date_parse = (\<lambda>d. if d = ''2023-11-14T22:13:20.000Z'' then Some 1700000000000 else None),
      checkboxIssueReceipt = (\<lambda>login pin license req. fiscal)\<rparr>"

definition demo_pending_payment :: payment where
  \<comment> \<open>The row that ingesting \<^const>\<open>demo_payment\<close> for company 1 stores first.\<close>
  "demo_pending_payment =
     \<lparr>p_id = 1, p_company_id = 1, external_id = Some ''PB_TXN_001'', amount = 1500,
      currency = Some ''UAH'', description = Some ''Invoice 123'',
      sender_account = Some ''UA783220010000012345678901234'',
      sender_name = Some ''Sender'', sender_tax_id = None, document_number = Some ''77'',
      payment_date = 1700000000000, status = Some ''pending'', receipt_issued = False,
      receipt_id = None, is_target = True\<rparr>"

definition demo_issued_store :: store where
  \<comment> \<open>\<^const>\<open>demo_store\<close> after one payment of company 1 was ingested and its receipt
      issued.\<close>
  "demo_issued_store =
     fst (create_route (demo_externals [] (Inr demo_checkbox_receipt))
            (fst (fetch_route (demo_externals [Inr demo_payment] (Inr demo_checkbox_receipt))
                    demo_store 1 None None)) 1)"

definition demo_pending_store :: store where
  \<comment> \<open>\<^const>\<open>demo_store\<close> after one payment of company 1 was ingested.\<close>
  "demo_pending_store =
     fst (fetch_route (demo_externals [Inr demo_payment] (Inr demo_checkbox_receipt))
            demo_store 1 None None)"

definition demo_half_issued_store :: store where
  \<comment> \<open>\<^const>\<open>demo_pending_store\<close> after the \<open>INSERT INTO receipts\<close> of the receipt route
      for payment 1 and before its \<open>UPDATE payments\<close>.\<close>
  "demo_half_issued_store =
     fst (insert_receipt demo_pending_store demo_pending_payment 1 demo_checkbox_receipt)"

definition empty_store :: "company list \<Rightarrow> store" where
  \<comment> \<open>The tables as \<open>CREATE TABLE\<close> leaves them, with the given companies.\<close>
  "empty_store cs =
     \<lparr>companies = cs, payments = [], receipts = [], payments_id_seq = 1, receipts_id_seq = 1\<rparr>"

section \<open>Properties of the classifier\<close>

lemma substring_window:
  assumes "19 \<le> length a"
  shows "substring a 15 19 = [a ! 15, a ! 16, a ! 17, a ! 18]"
proof -
  have len: "length (substring a 15 19) = 4"
    using assms by (simp add: substring_def Let_def)
  have nth: "substring a 15 19 ! i = a ! (15 + i)" if "i < 4" for i
    using assms that by (simp add: substring_def Let_def)
  show ?thesis
  proof (rule nth_equalityI)
    show "length (substring a 15 19) = length [a ! 15, a ! 16, a ! 17, a ! 18]"
      using len by simp
  next
    fix i assume "i < length (substring a 15 19)"
    then have "i < 4" using len by simp
    then consider "i = 0" | "i = 1" | "i = 2" | "i = 3" by linarith
    then show "substring a 15 19 ! i = [a ! 15, a ! 16, a ! 17, a ! 18] ! i"
      using nth [of i] by cases simp_all
  qed
qed

text \<open>
  C6. For an account of at least 19 characters other than the excluded account,
  \<open>isTargetAccount\<close> is false exactly when the four characters at positions 15, 16, 17
  and 18 (counted from 0) spell one of 2600, 2902, 2909, 2920, and true otherwise. The
  version with the excluded account agrees with it on these accounts.
\<close>

theorem isTarget_window:
  assumes "19 \<le> length a" and "a \<noteq> NOVA_POSHTA_ACCOUNT"
  shows "isTargetAccount (Some a)
           = ([a ! 15, a ! 16, a ! 17, a ! 18] \<notin> {''2600'', ''2902'', ''2909'', ''2920''})
       \<and> isTargetAccount_excl (Some a) = isTargetAccount (Some a)"
proof -
  from assms(1) have ne: "a \<noteq> []" by auto
  show ?thesis
    using assms ne
    by (simp add: isTargetAccount_def isTargetAccount_excl_def Let_def array_includes_def
        NON_TARGET_PATTERNS_def substring_window)
qed

theorem isTarget_window_witness:
  "19 \<le> length ''UA843052990000026001031613189''
   \<and> ''UA843052990000026001031613189'' \<noteq> NOVA_POSHTA_ACCOUNT
   \<and> isTargetAccount (Some ''UA843052990000026001031613189'') = False
   \<and> isTargetAccount_excl (Some ''UA843052990000026001031613189'') = False
   \<and> 19 \<le> length ''UA783220010000012345678901234''
   \<and> ''UA783220010000012345678901234'' \<noteq> NOVA_POSHTA_ACCOUNT
   \<and> isTargetAccount (Some ''UA783220010000012345678901234'') = True
   \<and> isTargetAccount_excl (Some ''UA783220010000012345678901234'') = True"
  using isTarget_window [of "''UA843052990000026001031613189''"]
    isTarget_window [of "''UA783220010000012345678901234''"]
  by (simp add: NOVA_POSHTA_ACCOUNT_def)

text \<open>
  C7. The claim asks that the excluded account be classified as not a target. The
  version of \<open>isTargetAccount\<close> without the exclusion reads its window, which is 2654 and
  not one of the four codes, and answers true; the version with the exclusion answers
  false.
\<close>

theorem nova_poshta_is_target:
  "isTargetAccount (Some NOVA_POSHTA_ACCOUNT) = True
   \<and> substring NOVA_POSHTA_ACCOUNT 15 19 = ''2654''
   \<and> isTargetAccount_excl (Some NOVA_POSHTA_ACCOUNT) = False"
  by (simp add: isTargetAccount_def isTargetAccount_excl_def NOVA_POSHTA_ACCOUNT_def
      substring_def array_includes_def NON_TARGET_PATTERNS_def)

text \<open>
  C8. An account that is \<open>null\<close> or absent, empty, or shorter than 19 characters is
  classified as not a target, by the version without the excluded account and by the
  version with it.
\<close>

theorem isTarget_short:
  "isTargetAccount None = False
   \<and> isTargetAccount (Some []) = False
   \<and> (length a < 19 \<longrightarrow> isTargetAccount (Some a) = False)
   \<and> isTargetAccount_excl None = False
   \<and> isTargetAccount_excl (Some []) = False
   \<and> (length a < 19 \<longrightarrow> isTargetAccount_excl (Some a) = False)"
  by (simp add: isTargetAccount_def isTargetAccount_excl_def)

theorem isTarget_short_witness:
  "length ''UA123456789'' < 19 \<and> isTargetAccount (Some ''UA123456789'') = False
   \<and> isTargetAccount_excl (Some ''UA123456789'') = False"
  using isTarget_short [of "''UA123456789''"] by simp

text \<open>
  The earlier version reads one position to the left and disagrees with the two others,
  for instance on the account of the first example in their documentation.
\<close>

lemma isTargetAccount_14_differs:
  "isTargetAccount_14 (Some ''UA843052990000026001031613189'') = True
   \<and> isTargetAccount (Some ''UA843052990000026001031613189'') = False"
  by (simp add: isTargetAccount_14_def isTargetAccount_def substring_def array_includes_def
      NON_TARGET_PATTERNS_def)

section \<open>Properties of the amount conversion\<close>

text \<open>
  C9. The conversion returns an integer nearest to the amount times 100. On an amount
  with two decimal places, \<open>k\<close> hundredths, it returns \<open>k\<close> exactly, and dividing the
  result by 100 gives the amount back. This holds for every \<open>k\<close>, so also
  for the amounts a \<open>DECIMAL(10, 2)\<close> column holds.
\<close>

theorem uahToKopiyky_exact:
  "\<bar>of_int (uahToKopiyky a) - a * 100\<bar> \<le> 1 / 2
   \<and> uahToKopiyky (decimal_10_2 k) = k
   \<and> kopiykyToUah (uahToKopiyky (decimal_10_2 k)) = decimal_10_2 k"
proof -
  have near: "\<bar>of_int (uahToKopiyky a) - a * 100\<bar> \<le> 1 / 2"
    unfolding uahToKopiyky_def by linarith
  have "\<lfloor>(of_int k :: rat) + 1 / 2\<rfloor> = k" by linarith
  then have "uahToKopiyky (decimal_10_2 k) = k"
    by (simp add: uahToKopiyky_def decimal_10_2_def)
  with near show ?thesis by (simp add: kopiykyToUah_def decimal_10_2_def)
qed

theorem uahToKopiyky_exact_witness:
  "uahToKopiyky 1500 = 150000 \<and> kopiykyToUah 150000 = 1500"
  using uahToKopiyky_exact [of 1500 150000]
  by (simp add: decimal_10_2_def kopiykyToUah_def)

section \<open>Properties of the title resolver\<close>

text \<open>
  C10. The request the receipt route prepares has one line item, whose name is the
  default title and whose code is the payment's id as a string, whatever the payment's
  description. A company info without a tax id always resolves to the default title,
  and the product code is the id as a string for every company.
\<close>

theorem route_title_is_default:
  "rq_goods (receiptData payment crow) =
     [\<lparr>gi_good = \<lparr>g_code = toString (p_id payment), g_name = title_HDMI_RCA,
                   g_price = uahToKopiyky (amount payment)\<rparr>,
       gi_quantity = 1000\<rparr>]
   \<and> getProductTitle \<lparr>ci_id = i, ci_name = n, ci_tax_id = None\<rparr> paymentInfo = title_HDMI_RCA
   \<and> getProductCode companyInfo paymentInfo = toString (pi_id paymentInfo)"
  by (simp add: receiptData_def Let_def getProductTitle_def getProductCode_def
      getUniversalProductTitle_def)

section \<open>Properties of the receipt route\<close>

lemma filter_key_unique:
  "distinct (map f xs) \<Longrightarrow> x \<in> set xs \<Longrightarrow> filter (\<lambda>y. f y = f x) xs = [x]"
proof (induction xs)
  case Nil
  then show ?case by simp
next
  case (Cons y ys)
  show ?case
  proof (cases "y = x")
    case True
    with Cons.prems have "f x \<notin> f ` set ys" by simp
    then have "\<forall>z \<in> set ys. f z \<noteq> f x" by (metis imageI)
    then have "filter (\<lambda>y. f y = f x) ys = []" by (simp add: filter_empty_conv)
    with True show ?thesis by simp
  next
    case False
    with Cons.prems have "x \<in> set ys" "f y \<noteq> f x" by auto
    with Cons show ?thesis by simp
  qed
qed

lemma select_payment_with_company_wf:
  assumes "store_wf s" "p \<in> set (payments s)"
  shows "\<exists>c. c \<in> set (companies s) \<and> c_id c = p_company_id p
           \<and> select_payment_with_company s (p_id p) = [(p, c)]"
proof -
  from assms have fp: "filter (\<lambda>q. p_id q = p_id p) (payments s) = [p]"
    by (simp add: store_wf_def filter_key_unique)
  from assms obtain c where c: "c \<in> set (companies s)" "c_id c = p_company_id p"
    by (auto simp: store_wf_def list_all_iff list_ex_iff)
  from assms(1) c(1) have "filter (\<lambda>d. c_id d = c_id c) (companies s) = [c]"
    by (intro filter_key_unique) (simp_all add: store_wf_def)
  with c fp have "select_payment_with_company s (p_id p) = [(p, c)]"
    by (simp add: select_payment_with_company_def)
  with c show ?thesis by blast
qed

lemma demo_pending_payments:
  "payments demo_pending_store = [demo_pending_payment]"
  by code_simp

lemma demo_issued_payments:
  "payments demo_issued_store = [demo_pending_payment\<lparr>receipt_issued := True\<rparr>]"
  by code_simp

text \<open>
  C3. In a store that satisfies the constraints of the schema, issuing a receipt for a
  payment whose \<open>receipt_issued\<close> flag is set fails with \<open>AlreadyIssued\<close> (status 400,
  "Receipt already issued") and returns the store as it was: no receipt is inserted and
  no row is changed.
\<close>

theorem already_issued_rejected:
  assumes "store_wf s" and "p \<in> set (payments s)" and "receipt_issued p"
  shows "create_route ext s (p_id p) = (s, Inl AlreadyIssued)"
proof -
  from assms obtain c where "select_payment_with_company s (p_id p) = [(p, c)]"
    using select_payment_with_company_wf by blast
  moreover from assms have "0 < p_id p" "p_id p \<le> int4_max"
    by (auto simp: store_wf_def list_all_iff)
  ultimately show ?thesis using assms(3) by (simp add: create_route_def)
qed

theorem already_issued_rejected_witness:
  "store_wf demo_issued_store
   \<and> demo_pending_payment\<lparr>receipt_issued := True\<rparr> \<in> set (payments demo_issued_store)
   \<and> receipt_issued (demo_pending_payment\<lparr>receipt_issued := True\<rparr>)
   \<and> create_route (demo_externals [] (Inr demo_checkbox_receipt)) demo_issued_store 1
       = (demo_issued_store, Inl AlreadyIssued)"
proof -
  have wf: "store_wf demo_issued_store" by code_simp
  have mem: "demo_pending_payment\<lparr>receipt_issued := True\<rparr> \<in> set (payments demo_issued_store)"
    by (simp add: demo_issued_payments)
  have fl: "receipt_issued (demo_pending_payment\<lparr>receipt_issued := True\<rparr>)" by simp
  have id: "p_id (demo_pending_payment\<lparr>receipt_issued := True\<rparr>) = 1"
    by (simp add: demo_pending_payment_def)
  show ?thesis
    using already_issued_rejected [OF wf mem fl, of "demo_externals [] (Inr demo_checkbox_receipt)"]
      wf mem
    by (simp add: id)
qed


text \<open>
  C4. When the route reaches the call of the fiscal service (the payment exists and is
  not issued, the three credentials are present and decrypt) and the call fails, the
  route answers \<open>FiscalSubmissionFailed\<close> (status 502) with the upstream message and
  returns the store as it was: the flag stays false and no receipt is stored.
\<close>

theorem fiscal_failure_mutates_nothing:
  assumes "store_wf s" and "p \<in> set (payments s)" and "\<not> receipt_issued p"
    and "c \<in> set (companies s)" and "c_id c = p_company_id p"
    and "checkbox_license_key_encrypted c = Some license_encrypted" and "license_encrypted \<noteq> []"
    and "checkbox_cashier_login c = Some cashierLogin" and "cashierLogin \<noteq> []"
    and "checkbox_cashier_pin_encrypted c = Some pin_encrypted" and "pin_encrypted \<noteq> []"
    and "decrypt ext license_encrypted = Inr licenseKey"
    and "decrypt ext pin_encrypted = Inr cashierPin"
    and "checkboxIssueReceipt ext cashierLogin cashierPin licenseKey (receiptData p c) = Inl m"
  shows "create_route ext s (p_id p)
           = (s, Inl (FiscalSubmissionFailed (message_or m ''API request failed'')))"
proof -
  from assms(1,2) obtain c' where c': "c' \<in> set (companies s)" "c_id c' = p_company_id p"
    "select_payment_with_company s (p_id p) = [(p, c')]"
    using select_payment_with_company_wf by blast
  from assms(1) have "inj_on c_id (set (companies s))"
    by (simp add: store_wf_def distinct_map)
  with c' assms(4,5) have "c' = c" by (metis inj_onD)
  moreover from assms have "0 < p_id p" "p_id p \<le> int4_max"
    by (auto simp: store_wf_def list_all_iff)
  ultimately show ?thesis using assms c' by (simp add: create_route_def)
qed


theorem fiscal_failure_witness:
  "store_wf demo_pending_store
   \<and> demo_pending_payment \<in> set (payments demo_pending_store)
   \<and> \<not> receipt_issued demo_pending_payment
   \<and> create_route (demo_externals [] (Inl ''503 Service Unavailable'')) demo_pending_store 1
       = (demo_pending_store, Inl (FiscalSubmissionFailed ''503 Service Unavailable''))"
proof -
  have wf: "store_wf demo_pending_store" by code_simp
  have mem: "demo_pending_payment \<in> set (payments demo_pending_store)"
    by (simp add: demo_pending_payments)
  have nf: "\<not> receipt_issued demo_pending_payment" by (simp add: demo_pending_payment_def)
  have cmem: "demo_company 1 \<in> set (companies demo_pending_store)" by code_simp
  have cid: "c_id (demo_company 1) = p_company_id demo_pending_payment"
    by (simp add: demo_company_def demo_pending_payment_def)
  have id: "p_id demo_pending_payment = 1" by (simp add: demo_pending_payment_def)
  show ?thesis
    using fiscal_failure_mutates_nothing [OF wf mem nf cmem cid,
        of "''license-ciphertext''" "''cashier''" "''pin-ciphertext''"
           "demo_externals [] (Inl ''503 Service Unavailable'')"
           "''plain-license-ciphertext''" "''plain-pin-ciphertext''"
           "''503 Service Unavailable''"]
      wf mem nf
    by (simp add: id demo_company_def demo_externals_def message_or_def)
qed

section \<open>Properties of the ingestion loop\<close>

lemma stored_for_cong:
  "payments s' = payments s \<Longrightarrow> stored_for s' c x = stored_for s c x"
  by (simp add: stored_for_def)

lemma ext_taken_cong:
  "payments s' = payments s \<Longrightarrow> ext_taken s' x = ext_taken s x"
  by (simp add: ext_taken_def)

lemma company_exists_cong:
  "companies s' = companies s \<Longrightarrow> company_exists s' c = company_exists s c"
  by (simp add: company_exists_def)

lemma is_stored_cong:
  "payments s' = payments s \<Longrightarrow> is_stored ext s' c = is_stored ext s c"
  by (rule ext) (simp add: is_stored_def stored_for_def split: sum.splits)

lemma select_existing_payment_iff:
  "select_existing_payment s x c \<noteq> [] \<longleftrightarrow> stored_for s c x"
  by (auto simp: select_existing_payment_def stored_for_def list_ex_iff filter_empty_conv)

lemma stored_for_taken: "stored_for s c x \<Longrightarrow> ext_taken s x"
  by (auto simp: stored_for_def ext_taken_def list_ex_iff)

lemma stored_for_append:
  "stored_for s c x \<Longrightarrow> payments s' = payments s @ extra \<Longrightarrow> stored_for s' c x"
  by (auto simp: stored_for_def list_ex_iff)

lemma ext_taken_append:
  "ext_taken s x \<Longrightarrow> payments s' = payments s @ extra \<Longrightarrow> ext_taken s' x"
  by (auto simp: ext_taken_def list_ex_iff)

lemma and_then_Inr:
  "and_then r f = Inr y \<longleftrightarrow> (\<exists>v. r = Inr v \<and> f v = Inr y)"
  by (cases r) (simp_all add: and_then_def)

lemma isl_and_then:
  "isl (and_then r f) \<longleftrightarrow> isl r \<or> (\<exists>v. r = Inr v \<and> isl (f v))"
  by (cases r) (simp_all add: and_then_def)

lemma new_payment_row_Inr:
  assumes "new_payment_row i c p t = Inr row"
  shows "p_id row = i" and "p_company_id row = c" and "\<not> receipt_issued row"
    and "external_id row = stored_external_id p" and "stored_external_id p \<noteq> None"
  using assms
  by (auto simp: new_payment_row_def and_then_Inr stored_external_id_def)

lemma new_payment_row_isl:
  "isl (new_payment_row i c p t) = isl (new_payment_row 0 0 p False)"
  by (simp add: new_payment_row_def isl_and_then)

lemma stored_external_id_fits:
  "length (x_external_id p) \<le> 255 \<Longrightarrow> stored_external_id p = Some (x_external_id p)"
  by (simp add: stored_external_id_def varchar_def)

lemma insert_payment_blocked:
  assumes "\<not> insertable s c p"
  shows "\<exists>s' m. insert_payment s c p t = (s', Inl m)
           \<and> payments s' = payments s \<and> companies s' = companies s
           \<and> receipts s' = receipts s \<and> payments_id_seq s \<le> payments_id_seq s'"
proof (cases "int4_max < payments_id_seq s")
  case True
  then show ?thesis by (simp add: insert_payment_def)
next
  case seq: False
  show ?thesis
  proof (cases "new_payment_row (payments_id_seq s) c p t")
    case (Inl m)
    with seq show ?thesis by (simp add: insert_payment_def Let_def)
  next
    case (Inr row)
    from new_payment_row_Inr [OF Inr] obtain x where
      x: "stored_external_id p = Some x" "external_id row = Some x" by auto
    from Inr have "\<not> isl (new_payment_row 0 0 p False)"
      using new_payment_row_isl [of "payments_id_seq s" c p t] by simp
    with assms seq x have "ext_taken s x \<or> \<not> company_exists s c"
      by (simp add: insertable_def)
    with seq Inr x show ?thesis
      by (auto simp: insert_payment_def Let_def ext_taken_def company_exists_def)
  qed
qed

lemma insert_payment_free:
  assumes "insertable s c p"
  shows "\<exists>row. new_payment_row (payments_id_seq s) c p t = Inr row
           \<and> insert_payment s c p t
               = (s\<lparr>payments_id_seq := payments_id_seq s + 1,
                    payments := payments s @ [row]\<rparr>, Inr (payments_id_seq s))"
proof -
  from assms have seq: "\<not> int4_max < payments_id_seq s" by (simp add: insertable_def)
  from assms have "\<not> isl (new_payment_row (payments_id_seq s) c p t)"
    using new_payment_row_isl [of "payments_id_seq s" c p t] by (simp add: insertable_def)
  then obtain row where row: "new_payment_row (payments_id_seq s) c p t = Inr row"
    by (cases "new_payment_row (payments_id_seq s) c p t") auto
  from new_payment_row_Inr [OF row] obtain x where
    x: "stored_external_id p = Some x" "external_id row = Some x" by auto
  with assms have "\<not> ext_taken s x" "company_exists s c" by (simp_all add: insertable_def)
  with seq row x show ?thesis
    by (simp add: insert_payment_def Let_def ext_taken_def company_exists_def)
qed

text \<open>One turn of the loop: the four ways a transaction is accounted for.\<close>

lemma process_transaction_cases:
  obtains
    (unparsed) m where "parsePrivatBankTransaction ext tx = Inl m"
      "process_transaction ext c tx (s, n, d, e)
         = (s, n, d, e @ [failed_to_process (NUM_DOC ext tx) m])"
  | (duplicate) p where "parsePrivatBankTransaction ext tx = Inr p"
      "stored_for s c (x_external_id p)"
      "process_transaction ext c tx (s, n, d, e) = (s, n, d + 1, e)"
  | (rejected) p m s' where "parsePrivatBankTransaction ext tx = Inr p"
      "\<not> stored_for s c (x_external_id p)" "\<not> insertable s c p"
      "process_transaction ext c tx (s, n, d, e)
         = (s', n, d, e @ [failed_to_process (NUM_DOC ext tx) m])"
      "payments s' = payments s" "companies s' = companies s" "receipts s' = receipts s"
      "payments_id_seq s \<le> payments_id_seq s'"
  | (created) p row where "parsePrivatBankTransaction ext tx = Inr p"
      "\<not> stored_for s c (x_external_id p)" "insertable s c p"
      "new_payment_row (payments_id_seq s) c p (classifier ext (x_sender_account p)) = Inr row"
      "process_transaction ext c tx (s, n, d, e)
         = (s\<lparr>payments_id_seq := payments_id_seq s + 1, payments := payments s @ [row]\<rparr>,
            n + 1, d, e)"
proof (cases "parsePrivatBankTransaction ext tx")
  case (Inl m)
  then show ?thesis using unparsed by (simp add: process_transaction_def)
next
  case (Inr p)
  show ?thesis
  proof (cases "stored_for s c (x_external_id p)")
    case True
    with Inr show ?thesis
      using duplicate by (simp add: process_transaction_def select_existing_payment_iff)
  next
    case nst: False
    show ?thesis
    proof (cases "insertable s c p")
      case False
      from insert_payment_blocked [OF False, of "classifier ext (x_sender_account p)"]
      obtain s' m where
        ins: "insert_payment s c p (classifier ext (x_sender_account p)) = (s', Inl m)"
        and same: "payments s' = payments s" "companies s' = companies s"
          "receipts s' = receipts s" "payments_id_seq s \<le> payments_id_seq s'" by blast
      from Inr nst ins have body: "process_transaction ext c tx (s, n, d, e)
         = (s', n, d, e @ [failed_to_process (NUM_DOC ext tx) m])"
        by (simp add: process_transaction_def select_existing_payment_iff)
      show ?thesis by (rule rejected [OF Inr nst False body same])
    next
      case True
      from insert_payment_free [OF True, of "classifier ext (x_sender_account p)"]
      obtain row where
        row: "new_payment_row (payments_id_seq s) c p (classifier ext (x_sender_account p))
                = Inr row"
        and ins: "insert_payment s c p (classifier ext (x_sender_account p))
           = (s\<lparr>payments_id_seq := payments_id_seq s + 1, payments := payments s @ [row]\<rparr>,
              Inr (payments_id_seq s))" by blast
      from Inr nst ins have body: "process_transaction ext c tx (s, n, d, e)
         = (s\<lparr>payments_id_seq := payments_id_seq s + 1, payments := payments s @ [row]\<rparr>,
            n + 1, d, e)"
        by (simp add: process_transaction_def select_existing_payment_iff)
      show ?thesis by (rule created [OF Inr nst True row body])
    qed
  qed
qed

lemma process_transactions_append:
  "process_transactions ext c (xs @ ys) acc
     = process_transactions ext c ys (process_transactions ext c xs acc)"
  by (induction xs arbitrary: acc) simp_all

text \<open>What one turn does to the store: payments are only appended, the companies and the
  receipts stay, the sequence does not go back.\<close>

lemma process_transaction_extends:
  assumes "process_transaction ext c tx (s, n, d, e) = (s', n', d', e')"
  shows "\<exists>extra. payments s' = payments s @ extra" and "companies s' = companies s"
    and "receipts s' = receipts s" and "payments_id_seq s \<le> payments_id_seq s'"
    and "d \<le> d'"
  using assms
  by (rule_tac [!] process_transaction_cases [where ext = ext and tx = tx and c = c and s = s
        and n = n and d = d and e = e]) auto

lemma process_transactions_extends:
  assumes "process_transactions ext c txs (s, n, d, e) = (s', n', d', e')"
  shows "(\<exists>extra. payments s' = payments s @ extra) \<and> companies s' = companies s
         \<and> receipts s' = receipts s \<and> payments_id_seq s \<le> payments_id_seq s' \<and> d \<le> d'"
  using assms
proof (induction txs arbitrary: s n d e)
  case Nil
  then show ?case by simp
next
  case (Cons tx txs)
  obtain s1 n1 d1 e1 where body: "process_transaction ext c tx (s, n, d, e) = (s1, n1, d1, e1)"
    by (cases "process_transaction ext c tx (s, n, d, e)") auto
  with Cons.prems have "process_transactions ext c txs (s1, n1, d1, e1) = (s', n', d', e')"
    by simp
  from Cons.IH [OF this] process_transaction_extends [OF body]
  show ?case by auto
qed

lemma not_insertable_mono:
  assumes "\<not> insertable s c p" and "payments s' = payments s @ extra"
    and "companies s' = companies s" and "payments_id_seq s \<le> payments_id_seq s'"
  shows "\<not> insertable s' c p"
proof
  assume ins: "insertable s' c p"
  then obtain x where x: "stored_external_id p = Some x" "\<not> ext_taken s' x"
    by (auto simp: insertable_def split: option.splits)
  with assms(2) have "\<not> ext_taken s x" by (auto dest: ext_taken_append)
  moreover from ins assms(3) have "company_exists s c"
    by (simp add: insertable_def company_exists_def)
  moreover from ins assms(4) have "payments_id_seq s \<le> int4_max" by (simp add: insertable_def)
  moreover from ins have "\<not> isl (new_payment_row 0 0 p False)" by (simp add: insertable_def)
  ultimately have "insertable s c p" using x by (simp add: insertable_def)
  with assms(1) show False ..
qed

text \<open>After its turn a transaction that parses is stored for the company or cannot be
  inserted.\<close>

lemma process_transaction_blocks:
  assumes "process_transaction ext c tx (s, n, d, e) = (s', n', d', e')"
    and "parsePrivatBankTransaction ext tx = Inr p"
  shows "stored_for s' c (x_external_id p) \<or> \<not> insertable s' c p"
proof (rule process_transaction_cases [where ext = ext and tx = tx and c = c and s = s
      and n = n and d = d and e = e], goal_cases)
  case (1 m)
  with assms show ?case by simp
next
  case (2 q)
  with assms show ?case by simp
next
  case (3 q m s1)
  with assms have "s1 = s'" "q = p" by simp_all
  with 3 have "\<not> insertable s' c p"
    using not_insertable_mono [of s c p s' "[]"] by simp
  then show ?case ..
next
  case (4 q row)
  with assms have q: "q = p"
    and s': "s' = s\<lparr>payments_id_seq := payments_id_seq s + 1, payments := payments s @ [row]\<rparr>"
    by simp_all
  from new_payment_row_Inr [OF 4(4)] q obtain x where
    x: "stored_external_id p = Some x" "external_id row = Some x" by auto
  then have "ext_taken s' x" unfolding s' by (simp add: ext_taken_def)
  with x have "\<not> insertable s' c p" by (simp add: insertable_def)
  then show ?case ..
qed

lemma process_transactions_blocks:
  assumes "process_transactions ext c txs (s, n, d, e) = (s', n', d', e')"
    and "tx \<in> set txs" and "parsePrivatBankTransaction ext tx = Inr p"
  shows "stored_for s' c (x_external_id p) \<or> \<not> insertable s' c p"
  using assms
proof (induction txs arbitrary: s n d e)
  case Nil
  then show ?case by simp
next
  case (Cons t txs)
  obtain s1 n1 d1 e1 where body: "process_transaction ext c t (s, n, d, e) = (s1, n1, d1, e1)"
    by (cases "process_transaction ext c t (s, n, d, e)") auto
  with Cons.prems have rest: "process_transactions ext c txs (s1, n1, d1, e1) = (s', n', d', e')"
    by simp
  show ?case
  proof (cases "tx \<in> set txs")
    case True
    then show ?thesis using Cons.IH [OF rest _ Cons.prems(3)] by simp
  next
    case False
    with Cons.prems have t: "parsePrivatBankTransaction ext t = Inr p" by simp
    from process_transactions_extends [OF rest] obtain extra where
      ext': "payments s' = payments s1 @ extra" "companies s' = companies s1"
      "payments_id_seq s1 \<le> payments_id_seq s'" by blast
    from process_transaction_blocks [OF body t]
    show ?thesis
    proof
      assume "stored_for s1 c (x_external_id p)"
      from this ext'(1) have "stored_for s' c (x_external_id p)" by (rule stored_for_append)
      then show ?thesis ..
    next
      assume "\<not> insertable s1 c p"
      from this ext' have "\<not> insertable s' c p" by (rule not_insertable_mono)
      then show ?thesis ..
    qed
  qed
qed

text \<open>A batch of which nothing can be inserted leaves the payments as they are and
  counts as duplicates the transactions the company has stored.\<close>

lemma process_transactions_blocked:
  assumes "process_transactions ext c txs (s, n, d, e) = (s', n', d', e')"
    and "\<forall>tx \<in> set txs. \<forall>p. parsePrivatBankTransaction ext tx = Inr p
           \<longrightarrow> stored_for s c (x_external_id p) \<or> \<not> insertable s c p"
  shows "payments s' = payments s \<and> n' = n
         \<and> d' = d + length (filter (is_stored ext s c) txs)"
  using assms
proof (induction txs arbitrary: s n d e)
  case Nil
  then show ?case by simp
next
  case (Cons tx txs)
  show ?case
  proof (rule process_transaction_cases [where ext = ext and tx = tx and c = c and s = s
        and n = n and d = d and e = e], goal_cases)
    case (1 m)
    with Cons.prems have "payments s' = payments s \<and> n' = n
         \<and> d' = d + length (filter (is_stored ext s c) txs)"
      by (intro Cons.IH) simp_all
    moreover from 1 have "\<not> is_stored ext s c tx" by (simp add: is_stored_def)
    ultimately show ?case by simp
  next
    case (2 p)
    with Cons.prems have "payments s' = payments s \<and> n' = n
         \<and> d' = (d + 1) + length (filter (is_stored ext s c) txs)"
      by (intro Cons.IH) simp_all
    moreover from 2 have "is_stored ext s c tx" by (simp add: is_stored_def)
    ultimately show ?case by simp
  next
    case (3 p m s1)
    have blocked: "\<forall>tx \<in> set txs. \<forall>p. parsePrivatBankTransaction ext tx = Inr p
           \<longrightarrow> stored_for s1 c (x_external_id p) \<or> \<not> insertable s1 c p"
    proof (intro ballI allI impI)
      fix t q assume "t \<in> set txs" "parsePrivatBankTransaction ext t = Inr q"
      with Cons.prems(2) have "stored_for s c (x_external_id q) \<or> \<not> insertable s c q"
        by simp
      then show "stored_for s1 c (x_external_id q) \<or> \<not> insertable s1 c q"
      proof
        assume "stored_for s c (x_external_id q)"
        with stored_for_cong [OF 3(5), of c "x_external_id q"] show ?thesis by simp
      next
        assume "\<not> insertable s c q"
        then have "\<not> insertable s1 c q"
          using 3(5,6,8) by (intro not_insertable_mono [of s c q s1 "[]"]) simp_all
        then show ?thesis ..
      qed
    qed
    from 3 Cons.prems(1)
    have "process_transactions ext c txs
            (s1, n, d, e @ [failed_to_process (NUM_DOC ext tx) m]) = (s', n', d', e')"
      by simp
    from Cons.IH [OF this blocked]
    have "payments s' = payments s1 \<and> n' = n
         \<and> d' = d + length (filter (is_stored ext s1 c) txs)" .
    moreover from 3 have "\<not> is_stored ext s c tx" by (simp add: is_stored_def)
    moreover from 3(5) have "is_stored ext s1 c = is_stored ext s c" by (rule is_stored_cong)
    ultimately show ?case using 3(5) by simp
  next
    case (4 p row)
    with Cons.prems(2) show ?case by auto
  qed
qed

text \<open>Every transaction the company has stored is counted as a duplicate.\<close>

lemma filter_length_mono:
  "(\<And>x. x \<in> set xs \<Longrightarrow> P x \<Longrightarrow> Q x) \<Longrightarrow> length (filter P xs) \<le> length (filter Q xs)"
  by (induction xs) auto

lemma is_stored_append:
  "is_stored ext s c tx \<Longrightarrow> payments s' = payments s @ extra \<Longrightarrow> is_stored ext s' c tx"
  by (auto simp: is_stored_def split: sum.splits dest: stored_for_append)

lemma process_transactions_duplicates:
  assumes "process_transactions ext c txs (s, n, d, e) = (s', n', d', e')"
  shows "d + length (filter (is_stored ext s c) txs) \<le> d'"
  using assms
proof (induction txs arbitrary: s n d e)
  case Nil
  then show ?case by simp
next
  case (Cons tx txs)
  obtain s1 n1 d1 e1 where body: "process_transaction ext c tx (s, n, d, e) = (s1, n1, d1, e1)"
    by (cases "process_transaction ext c tx (s, n, d, e)") auto
  with Cons.prems have rest: "process_transactions ext c txs (s1, n1, d1, e1) = (s', n', d', e')"
    by simp
  from process_transaction_extends [OF body] obtain extra where
    ext1: "payments s1 = payments s @ extra" and d1: "d \<le> d1" by blast
  have "length (filter (is_stored ext s c) txs) \<le> length (filter (is_stored ext s1 c) txs)"
    using ext1 by (intro filter_length_mono) (rule is_stored_append)
  with Cons.IH [OF rest]
  have IH: "d1 + length (filter (is_stored ext s c) txs) \<le> d'" by simp
  show ?case
  proof (cases "is_stored ext s c tx")
    case True
    then obtain p where "parsePrivatBankTransaction ext tx = Inr p"
      "stored_for s c (x_external_id p)"
      by (auto simp: is_stored_def split: sum.splits)
    then have "process_transaction ext c tx (s, n, d, e) = (s, n, d + 1, e)"
      by (simp add: process_transaction_def select_existing_payment_iff)
    with body have "d1 = d + 1" by simp
    with IH True show ?thesis by simp
  next
    case False
    with IH d1 show ?thesis by simp
  qed
qed

text \<open>Every transaction is accounted for: as new, as a duplicate or as an error.\<close>

lemma process_transactions_account:
  assumes "process_transactions ext c txs (s, n, d, e) = (s', n', d', e')"
  shows "n' + d' + length e' = n + d + length e + length txs"
  using assms
proof (induction txs arbitrary: s n d e)
  case Nil
  then show ?case by simp
next
  case (Cons tx txs)
  show ?case
  proof (rule process_transaction_cases [where ext = ext and tx = tx and c = c and s = s
        and n = n and d = d and e = e], goal_cases)
    case (1 m)
    with Cons.prems Cons.IH [of s n d "e @ [failed_to_process (NUM_DOC ext tx) m]"]
    show ?case by simp
  next
    case (2 p)
    with Cons.prems Cons.IH [of s n "d + 1" e] show ?case by simp
  next
    case (3 p m s1)
    with Cons.prems Cons.IH [of s1 n d "e @ [failed_to_process (NUM_DOC ext tx) m]"]
    show ?case by simp
  next
    case (4 p row)
    with Cons.prems
      Cons.IH [of "s\<lparr>payments_id_seq := payments_id_seq s + 1, payments := payments s @ [row]\<rparr>"
        "n + 1" d e]
    show ?case by simp
  qed
qed

text \<open>The loop stores no further payment with an external id that is already held.\<close>

lemma process_transactions_keeps:
  assumes "process_transactions ext c txs (s, n, d, e) = (s', n', d', e')"
    and "ext_taken s x"
  shows "filter (\<lambda>q. external_id q = Some x) (payments s')
           = filter (\<lambda>q. external_id q = Some x) (payments s)"
  using assms
proof (induction txs arbitrary: s n d e)
  case Nil
  then show ?case by simp
next
  case (Cons tx txs)
  show ?case
  proof (rule process_transaction_cases [where ext = ext and tx = tx and c = c and s = s
        and n = n and d = d and e = e], goal_cases)
    case (1 m)
    with Cons.prems Cons.IH [of s n d "e @ [failed_to_process (NUM_DOC ext tx) m]"]
    show ?case by simp
  next
    case (2 p)
    with Cons.prems Cons.IH [of s n "d + 1" e] show ?case by simp
  next
    case (3 p m s1)
    from Cons.prems(2) have "ext_taken s1 x" using ext_taken_cong [OF 3(5), of x] by simp
    with 3 Cons.prems(1) Cons.IH [of s1 n d "e @ [failed_to_process (NUM_DOC ext tx) m]"]
    show ?case by simp
  next
    case (4 p row)
    let ?s1 = "s\<lparr>payments_id_seq := payments_id_seq s + 1, payments := payments s @ [row]\<rparr>"
    from new_payment_row_Inr [OF 4(4)] obtain y where
      y: "stored_external_id p = Some y" "external_id row = Some y" by auto
    with 4(3) have "\<not> ext_taken s y" by (simp add: insertable_def)
    with Cons.prems(2) have "y \<noteq> x" by auto
    with y have keep: "filter (\<lambda>q. external_id q = Some x) (payments ?s1)
           = filter (\<lambda>q. external_id q = Some x) (payments s)" by simp
    from Cons.prems(2) have "ext_taken ?s1 x" by (simp add: ext_taken_def)
    with 4 Cons.prems(1) Cons.IH [of ?s1 "n + 1" d e] keep show ?case by simp
  qed
qed

text \<open>Every transaction counted as new or as a duplicate, and whose external id fits its
  column, is stored for the company when the loop ends.\<close>

lemma process_transaction_stores:
  assumes "process_transaction ext c tx (s, n, d, e) = (s', n', d', e')"
    and "d' = d + 1 \<or> n' = n + 1 \<and> id_fits ext tx"
  shows "is_stored ext s' c tx"
proof (rule process_transaction_cases [where ext = ext and tx = tx and c = c and s = s
      and n = n and d = d and e = e], goal_cases)
  case (1 m)
  with assms show ?case by simp
next
  case (2 p)
  with assms show ?case by (simp add: is_stored_def)
next
  case (3 p m s1)
  with assms show ?case by simp
next
  case (4 p row)
  with assms have s': "s' = s\<lparr>payments_id_seq := payments_id_seq s + 1,
      payments := payments s @ [row]\<rparr>" and fits: "id_fits ext tx" by simp_all
  from fits 4(1) have "stored_external_id p = Some (x_external_id p)"
    by (simp add: id_fits_def stored_external_id_fits)
  with new_payment_row_Inr [OF 4(4)]
  have "external_id row = Some (x_external_id p)" "p_company_id row = c" by simp_all
  then have "stored_for s' c (x_external_id p)" unfolding s' by (simp add: stored_for_def)
  with 4(1) show ?case by (simp add: is_stored_def)
qed

lemma process_transactions_counts:
  assumes "process_transactions ext c txs (s, n, d, e) = (s', n', d', e')"
    and "\<forall>tx \<in> set txs. id_fits ext tx"
  shows "n' + d' \<le> n + d + length (filter (is_stored ext s' c) txs)"
  using assms
proof (induction txs arbitrary: s n d e)
  case Nil
  then show ?case by simp
next
  case (Cons tx txs)
  obtain s1 n1 d1 e1 where body: "process_transaction ext c tx (s, n, d, e) = (s1, n1, d1, e1)"
    by (cases "process_transaction ext c tx (s, n, d, e)") auto
  with Cons.prems have rest: "process_transactions ext c txs (s1, n1, d1, e1) = (s', n', d', e')"
    by simp
  from Cons.prems(2) have fits: "id_fits ext tx" "\<forall>t \<in> set txs. id_fits ext t" by simp_all
  from Cons.IH [OF rest fits(2)]
  have IH: "n' + d' \<le> n1 + d1 + length (filter (is_stored ext s' c) txs)" .
  from process_transactions_extends [OF rest] obtain extra where
    ext': "payments s' = payments s1 @ extra" by blast
  show ?case
  proof (cases "d1 = d + 1 \<or> n1 = n + 1")
    case True
    with fits(1) have "is_stored ext s1 c tx"
      by (intro process_transaction_stores [OF body]) auto
    from this ext' have "is_stored ext s' c tx" by (rule is_stored_append)
    moreover have "n1 + d1 \<le> n + d + 1"
      by (rule process_transaction_cases [where ext = ext and tx = tx and c = c and s = s
            and n = n and d = d and e = e]) (use body in auto)
    ultimately show ?thesis using IH by simp
  next
    case False
    have "n1 + d1 = n + d"
      by (rule process_transaction_cases [where ext = ext and tx = tx and c = c and s = s
            and n = n and d = d and e = e]) (use body False in auto)
    with IH show ?thesis by simp
  qed
qed

text \<open>
  C1. The claim asks that the same external id, ingested for two companies, be stored
  twice. The \<open>payments\<close> table declares \<open>external_id\<close> \<open>UNIQUE\<close> on its own, while the
  route looks for a duplicate by external id and company: after company 1 has stored the
  transaction, ingesting it for company 2 finds no duplicate, the \<open>INSERT\<close> violates the
  constraint, and the transaction ends in the error list. The one stored payment is the
  one of company 1.
\<close>

theorem external_id_unique_across_companies:
  "fetch_route (demo_externals [Inr demo_payment] (Inr demo_checkbox_receipt))
     demo_store 1 None None
     = (demo_pending_store,
        Inr \<lparr>total_fetched = 1, new_payments = 1, duplicates = 0, errors = []\<rparr>)
   \<and> fetch_route (demo_externals [Inr demo_payment] (Inr demo_checkbox_receipt))
       demo_pending_store 2 None None
     = (demo_pending_store\<lparr>payments_id_seq := 3\<rparr>,
        Inr \<lparr>total_fetched = 1, new_payments = 0, duplicates = 0,
             errors = [failed_to_process ''77'' unique_violation]\<rparr>)
   \<and> payments (demo_pending_store\<lparr>payments_id_seq := 3\<rparr>) = [demo_pending_payment]
   \<and> p_company_id demo_pending_payment = 1"
  by code_simp

text \<open>
  C2. As stated the claim fails: a transaction on which the parser throws is listed
  under the errors by the first run and by the second, and is never a duplicate; nor is
  a transaction whose external id another company holds (C1).
\<close>

theorem ingest_again_counterexample:
  "fetch_route (demo_externals [Inl ''Invalid transaction''] (Inr demo_checkbox_receipt))
     demo_store 1 None None
     = (demo_store,
        Inr \<lparr>total_fetched = 1, new_payments = 0, duplicates = 0,
             errors = [failed_to_process ''undefined'' ''Invalid transaction'']\<rparr>)
   \<and> fetch_route (demo_externals [Inl ''Invalid transaction''] (Inr demo_checkbox_receipt))
       (fst (fetch_route (demo_externals [Inl ''Invalid transaction'']
                            (Inr demo_checkbox_receipt)) demo_store 1 None None))
       1 None None
     = (demo_store,
        Inr \<lparr>total_fetched = 1, new_payments = 0, duplicates = 0,
             errors = [failed_to_process ''undefined'' ''Invalid transaction'']\<rparr>)
   \<and> payments demo_store = []
   \<and> fetch_route (demo_externals [Inr demo_payment] (Inr demo_checkbox_receipt))
       (fst (fetch_route (demo_externals [Inr demo_payment] (Inr demo_checkbox_receipt))
               demo_pending_store 2 None None))
       2 None None
     = (demo_pending_store\<lparr>payments_id_seq := 4\<rparr>,
        Inr \<lparr>total_fetched = 1, new_payments = 0, duplicates = 0,
             errors = [failed_to_process ''77'' unique_violation]\<rparr>)"
  by code_simp

text \<open>
  Why the external id has to fit its column below: an id of 256 characters that ends in
  a space is cut to 255 characters when it is stored, so the next run does not find it,
  tries to insert it again and runs into the uniqueness constraint.
\<close>

lemma long_external_id_not_found_again:
  "snd (ingest_transactions (demo_externals [] (Inr demo_checkbox_receipt)) 1
          [Inr demo_long_payment] demo_store)
     = \<lparr>total_fetched = 1, new_payments = 1, duplicates = 0, errors = []\<rparr>
   \<and> map external_id
        (payments (fst (ingest_transactions (demo_externals [] (Inr demo_checkbox_receipt)) 1
                          [Inr demo_long_payment] demo_store)))
     = [Some (replicate 255 (CHR ''A''))]
   \<and> snd (ingest_transactions (demo_externals [] (Inr demo_checkbox_receipt)) 1
          [Inr demo_long_payment]
          (fst (ingest_transactions (demo_externals [] (Inr demo_checkbox_receipt)) 1
                  [Inr demo_long_payment] demo_store)))
     = \<lparr>total_fetched = 1, new_payments = 0, duplicates = 0,
        errors = [failed_to_process ''77'' unique_violation]\<rparr>"
  by code_simp

text \<open>
  C2, as amended. Take a first run of the ingestion for a company and a second run, from
  the store the first one left, over any batch.
  \<^item> A transaction of the second batch that parses and that the company has stored after
    the first run is counted as a duplicate when its turn comes, and the store is left
    as it is.
  \<^item> The second run stores no further payment with an external id that the company has
    stored after the first run.
  \<^item> The duplicates of the second summary are at least the stored transactions of the
    batch.
  \<^item> A transaction that the first run counted as a duplicate, or as new with an external
    id that fits its column of 255 characters, is stored for the company after the first
    run.
  \<^item> A transaction on which the parser throws is pushed on the error list, changes
    neither the store nor the two counts, and is not a stored transaction.
  \<^item> In each run the new payments, the duplicates and the errors add up to the number of
    transactions.
  \<^item> When the second batch is the first one again, the second run stores nothing, counts
    nothing as new and counts as duplicates exactly the stored transactions, which, when
    all external ids fit the column, are at least as many as the first run counted as
    new or as duplicates.
\<close>

theorem ingest_again:
  assumes "ingest_transactions ext c txs1 s0 = (s1, r1)"
    and "ingest_transactions ext c txs2 s1 = (s2, r2)"
  shows "(\<forall>pre tx post. txs2 = pre @ tx # post \<longrightarrow> is_stored ext s1 c tx \<longrightarrow>
            (case at_turn ext c pre s1 of (s, n, d, e) \<Rightarrow>
               process_transaction ext c tx (s, n, d, e) = (s, n, d + 1, e)))
       \<and> (\<forall>x. stored_for s1 c x \<longrightarrow>
              filter (\<lambda>q. external_id q = Some x) (payments s2)
                = filter (\<lambda>q. external_id q = Some x) (payments s1))
       \<and> length (filter (is_stored ext s1 c) txs2) \<le> duplicates r2
       \<and> (\<forall>pre tx post. txs1 = pre @ tx # post \<longrightarrow>
            (case at_turn ext c pre s0 of (s, n, d, e) \<Rightarrow>
               (case process_transaction ext c tx (s, n, d, e) of (s', n', d', e') \<Rightarrow>
                  d' = d + 1 \<or> n' = n + 1 \<and> id_fits ext tx \<longrightarrow> is_stored ext s1 c tx)))
       \<and> (\<forall>tx m s n d e. parsePrivatBankTransaction ext tx = Inl m \<longrightarrow>
            process_transaction ext c tx (s, n, d, e)
              = (s, n, d, e @ [failed_to_process (NUM_DOC ext tx) m])
            \<and> \<not> is_stored ext s c tx)
       \<and> new_payments r1 + duplicates r1 + length (errors r1) = length txs1
       \<and> new_payments r2 + duplicates r2 + length (errors r2) = length txs2
       \<and> (txs2 = txs1 \<longrightarrow>
            payments s2 = payments s1 \<and> new_payments r2 = 0
            \<and> duplicates r2 = length (filter (is_stored ext s1 c) txs1))
       \<and> (txs2 = txs1 \<longrightarrow> (\<forall>tx \<in> set txs1. id_fits ext tx) \<longrightarrow>
            new_payments r1 + duplicates r1 \<le> duplicates r2)"
proof -
  obtain n1 d1 e1 where run1: "process_transactions ext c txs1 (s0, 0, 0, []) = (s1, n1, d1, e1)"
    and r1: "new_payments r1 = n1" "duplicates r1 = d1" "errors r1 = e1"
    using assms(1) by (auto simp: ingest_transactions_def split: prod.splits)
  obtain n2 d2 e2 where run2: "process_transactions ext c txs2 (s1, 0, 0, []) = (s2, n2, d2, e2)"
    and r2: "new_payments r2 = n2" "duplicates r2 = d2" "errors r2 = e2"
    using assms(2) by (auto simp: ingest_transactions_def split: prod.splits)
  have A: "case at_turn ext c pre s1 of (s, n, d, e) \<Rightarrow>
               process_transaction ext c tx (s, n, d, e) = (s, n, d + 1, e)"
    if "txs2 = pre @ tx # post" and st: "is_stored ext s1 c tx" for pre tx post
  proof -
    obtain s n d e where turn: "at_turn ext c pre s1 = (s, n, d, e)"
      by (cases "at_turn ext c pre s1") auto
    then have "process_transactions ext c pre (s1, 0, 0, []) = (s, n, d, e)"
      by (simp add: at_turn_def)
    from process_transactions_extends [OF this] obtain extra where
      "payments s = payments s1 @ extra" by blast
    with st have "is_stored ext s c tx" by (rule is_stored_append)
    then obtain p where "parsePrivatBankTransaction ext tx = Inr p"
      "stored_for s c (x_external_id p)"
      by (auto simp: is_stored_def split: sum.splits)
    then have "process_transaction ext c tx (s, n, d, e) = (s, n, d + 1, e)"
      by (simp add: process_transaction_def select_existing_payment_iff)
    with turn show ?thesis by simp
  qed
  have B: "filter (\<lambda>q. external_id q = Some x) (payments s2)
             = filter (\<lambda>q. external_id q = Some x) (payments s1)"
    if "stored_for s1 c x" for x
    using process_transactions_keeps [OF run2 stored_for_taken [OF that]] .
  have C: "length (filter (is_stored ext s1 c) txs2) \<le> duplicates r2"
    using process_transactions_duplicates [OF run2] r2 by simp
  have D: "case at_turn ext c pre s0 of (s, n, d, e) \<Rightarrow>
               (case process_transaction ext c tx (s, n, d, e) of (s', n', d', e') \<Rightarrow>
                  d' = d + 1 \<or> n' = n + 1 \<and> id_fits ext tx \<longrightarrow> is_stored ext s1 c tx)"
    if split: "txs1 = pre @ tx # post" for pre tx post
  proof -
    obtain s n d e where turn: "at_turn ext c pre s0 = (s, n, d, e)"
      by (cases "at_turn ext c pre s0") auto
    obtain s' n' d' e' where body: "process_transaction ext c tx (s, n, d, e) = (s', n', d', e')"
      by (cases "process_transaction ext c tx (s, n, d, e)") auto
    from run1 split turn body
    have rest: "process_transactions ext c post (s', n', d', e') = (s1, n1, d1, e1)"
      by (simp add: process_transactions_append at_turn_def)
    from process_transactions_extends [OF rest] obtain extra where
      ext': "payments s1 = payments s' @ extra" by blast
    have "is_stored ext s1 c tx" if "d' = d + 1 \<or> n' = n + 1 \<and> id_fits ext tx"
    proof -
      from process_transaction_stores [OF body that] have "is_stored ext s' c tx" .
      from this ext' show ?thesis by (rule is_stored_append)
    qed
    with turn body show ?thesis by simp
  qed
  have E: "process_transaction ext c tx (s, n, d, e)
              = (s, n, d, e @ [failed_to_process (NUM_DOC ext tx) m])
            \<and> \<not> is_stored ext s c tx"
    if "parsePrivatBankTransaction ext tx = Inl m" for tx m s n d e
    using that by (simp add: process_transaction_def is_stored_def)
  have F1: "new_payments r1 + duplicates r1 + length (errors r1) = length txs1"
    using process_transactions_account [OF run1] r1 by simp
  have F2: "new_payments r2 + duplicates r2 + length (errors r2) = length txs2"
    using process_transactions_account [OF run2] r2 by simp
  have G: "payments s2 = payments s1 \<and> new_payments r2 = 0
            \<and> duplicates r2 = length (filter (is_stored ext s1 c) txs1)"
    if same: "txs2 = txs1"
  proof -
    have blocked: "\<forall>tx \<in> set txs1. \<forall>p. parsePrivatBankTransaction ext tx = Inr p
           \<longrightarrow> stored_for s1 c (x_external_id p) \<or> \<not> insertable s1 c p"
      using process_transactions_blocks [OF run1] by blast
    from run2 same have "process_transactions ext c txs1 (s1, 0, 0, []) = (s2, n2, d2, e2)"
      by simp
    from process_transactions_blocked [OF this blocked] r2 show ?thesis by simp
  qed
  have H: "new_payments r1 + duplicates r1 \<le> duplicates r2"
    if same: "txs2 = txs1" and fits: "\<forall>tx \<in> set txs1. id_fits ext tx"
  proof -
    from process_transactions_counts [OF run1 fits]
    have "n1 + d1 \<le> length (filter (is_stored ext s1 c) txs1)" by simp
    with G [OF same] r1 show ?thesis by simp
  qed
  from A B C D E F1 F2 G H show ?thesis by blast
qed

theorem ingest_again_witness:
  "ingest_transactions (demo_externals [] (Inr demo_checkbox_receipt)) 1
     [Inr demo_payment, Inl ''Invalid transaction''] demo_store
     = (demo_pending_store,
        \<lparr>total_fetched = 2, new_payments = 1, duplicates = 0,
         errors = [failed_to_process ''undefined'' ''Invalid transaction'']\<rparr>)
   \<and> ingest_transactions (demo_externals [] (Inr demo_checkbox_receipt)) 1
       [Inl ''Invalid transaction'', Inr demo_payment, Inr demo_payment_2] demo_pending_store
     = (fst (ingest_transactions (demo_externals [] (Inr demo_checkbox_receipt)) 1
               [Inr demo_payment_2] demo_pending_store),
        \<lparr>total_fetched = 3, new_payments = 1, duplicates = 1,
         errors = [failed_to_process ''undefined'' ''Invalid transaction'']\<rparr>)
   \<and> is_stored (demo_externals [] (Inr demo_checkbox_receipt)) demo_pending_store 1
        (Inr demo_payment)
   \<and> process_transaction (demo_externals [] (Inr demo_checkbox_receipt)) 1 (Inr demo_payment)
        (demo_pending_store, 0, 0, [failed_to_process ''undefined'' ''Invalid transaction''])
     = (demo_pending_store, 0, 1, [failed_to_process ''undefined'' ''Invalid transaction''])
   \<and> filter (\<lambda>q. external_id q = Some ''PB_TXN_001'')
        (payments (fst (ingest_transactions (demo_externals [] (Inr demo_checkbox_receipt)) 1
               [Inr demo_payment_2] demo_pending_store)))
     = [demo_pending_payment]"
proof -
  let ?ext = "demo_externals [] (Inr demo_checkbox_receipt)"
  let ?s2 = "fst (ingest_transactions ?ext 1 [Inr demo_payment_2] demo_pending_store)"
  have h1: "ingest_transactions ?ext 1 [Inr demo_payment, Inl ''Invalid transaction'']
              demo_store
     = (demo_pending_store,
        \<lparr>total_fetched = 2, new_payments = 1, duplicates = 0,
         errors = [failed_to_process ''undefined'' ''Invalid transaction'']\<rparr>)"
    by code_simp
  have h2: "ingest_transactions ?ext 1
       [Inl ''Invalid transaction'', Inr demo_payment, Inr demo_payment_2] demo_pending_store
     = (?s2,
        \<lparr>total_fetched = 3, new_payments = 1, duplicates = 1,
         errors = [failed_to_process ''undefined'' ''Invalid transaction'']\<rparr>)"
    by code_simp
  have st: "is_stored ?ext demo_pending_store 1 (Inr demo_payment)" by code_simp
  have sf: "stored_for demo_pending_store 1 ''PB_TXN_001''" by code_simp
  have turn: "at_turn ?ext 1 [Inl ''Invalid transaction''] demo_pending_store
     = (demo_pending_store, 0, 0, [failed_to_process ''undefined'' ''Invalid transaction''])"
    by code_simp
  have rows: "filter (\<lambda>q. external_id q = Some ''PB_TXN_001'') (payments demo_pending_store)
     = [demo_pending_payment]"
    by code_simp
  note T = ingest_again [OF h1 h2]
  from T have "\<forall>pre tx post.
      [Inl ''Invalid transaction'', Inr demo_payment, Inr demo_payment_2] = pre @ tx # post
        \<longrightarrow> is_stored ?ext demo_pending_store 1 tx \<longrightarrow>
            (case at_turn ?ext 1 pre demo_pending_store of (s, n, d, e) \<Rightarrow>
               process_transaction ?ext 1 tx (s, n, d, e) = (s, n, d + 1, e))"
    by (rule conjunct1)
  from this [rule_format, of "[Inl ''Invalid transaction'']" "Inr demo_payment"
      "[Inr demo_payment_2]"] st turn
  have a: "process_transaction ?ext 1 (Inr demo_payment)
        (demo_pending_store, 0, 0, [failed_to_process ''undefined'' ''Invalid transaction''])
     = (demo_pending_store, 0, 1, [failed_to_process ''undefined'' ''Invalid transaction''])"
    by simp
  from T have "\<forall>x. stored_for demo_pending_store 1 x \<longrightarrow>
              filter (\<lambda>q. external_id q = Some x) (payments ?s2)
                = filter (\<lambda>q. external_id q = Some x) (payments demo_pending_store)"
    by (rule conjunct2 [THEN conjunct1])
  from this [rule_format, OF sf] rows
  have b: "filter (\<lambda>q. external_id q = Some ''PB_TXN_001'') (payments ?s2)
     = [demo_pending_payment]" by simp
  from h1 h2 st a b show ?thesis by blast
qed

section \<open>Properties of the receipts\<close>

lemma receipt_refs_cong:
  "receipts s' = receipts s \<Longrightarrow> receipt_refs s' = receipt_refs s"
  by (simp add: receipt_refs_def)

lemma receipt_refs_simps [simp]:
  "receipt_refs (s\<lparr>receipts_id_seq := n\<rparr>) = receipt_refs s"
  "receipt_refs (s\<lparr>payments_id_seq := k\<rparr>) = receipt_refs s"
  "receipt_refs (s\<lparr>payments := ps\<rparr>) = receipt_refs s"
  by (simp_all add: receipt_refs_def)

lemma new_receipt_row_payment_id:
  "new_receipt_row i p paymentId cr = Inr row \<Longrightarrow> r_payment_id row = Some paymentId"
  by (auto simp: new_receipt_row_def and_then_Inr)

lemma select_payment_with_company_hd:
  assumes "select_payment_with_company s paymentId = (p, c) # rest"
  shows "p \<in> set (payments s) \<and> p_id p = paymentId
         \<and> c \<in> set (companies s) \<and> c_id c = p_company_id p"
proof -
  from assms have "(p, c) \<in> set (select_payment_with_company s paymentId)" by simp
  then show ?thesis by (auto simp: select_payment_with_company_def)
qed

text \<open>The invariant looks at the payments, the receipts and the sequence of the payments
  only, and survives a sequence that moves on.\<close>

lemma store_inv_same:
  assumes "store_inv s" and "payments s' = payments s" and "receipts s' = receipts s"
    and "payments_id_seq s \<le> payments_id_seq s'"
  shows "store_inv s'"
proof -
  have "i < payments_id_seq s \<Longrightarrow> i < payments_id_seq s'" for i using assms(4) by simp
  with assms(1-3) receipt_refs_cong [OF assms(3)] show ?thesis
    by (auto simp: store_inv_def receipts_flagged_def list_all_iff)
qed

lemma insert_receipt_cases:
  assumes "insert_receipt s p paymentId cr = (s1, res)"
  obtains (failed) m where "res = Inl m" "payments s1 = payments s" "receipts s1 = receipts s"
      "payments_id_seq s1 = payments_id_seq s"
  | (stored) row where "res = Inr (receipts_id_seq s)" "r_payment_id row = Some paymentId"
      "s1 = s\<lparr>receipts_id_seq := receipts_id_seq s + 1, receipts := receipts s @ [row]\<rparr>"
proof (cases "int4_max < receipts_id_seq s")
  case True
  with assms have "res = Inl sequence_exhausted" "s1 = s" by (auto simp: insert_receipt_def)
  then show ?thesis by (intro failed [of sequence_exhausted]) simp_all
next
  case seq: False
  show ?thesis
  proof (cases "new_receipt_row (receipts_id_seq s) p paymentId cr")
    case (Inl m)
    with assms seq have "res = Inl m" "s1 = s\<lparr>receipts_id_seq := receipts_id_seq s + 1\<rparr>"
      by (auto simp: insert_receipt_def Let_def)
    then show ?thesis by (intro failed [of m]) simp_all
  next
    case (Inr row)
    note ref = new_receipt_row_payment_id [OF Inr]
    show ?thesis
    proof (cases "\<not> list_ex (\<lambda>c. c_id c = p_company_id p) (companies s)
            \<or> \<not> list_ex (\<lambda>q. p_id q = paymentId) (payments s)")
      case True
      with assms seq Inr have "res = Inl foreign_key_violation"
        "s1 = s\<lparr>receipts_id_seq := receipts_id_seq s + 1\<rparr>"
        by (auto simp: insert_receipt_def Let_def)
      then show ?thesis by (intro failed [of foreign_key_violation]) simp_all
    next
      case False
      with assms seq Inr have "res = Inr (receipts_id_seq s)"
        "s1 = s\<lparr>receipts_id_seq := receipts_id_seq s + 1, receipts := receipts s @ [row]\<rparr>"
        by (auto simp: insert_receipt_def Let_def)
      with ref show ?thesis by (intro stored [of row]) simp_all
    qed
  qed
qed

lemma store_inv_issue:
  assumes inv: "store_inv s" and p: "p \<in> set (payments s)" "\<not> receipt_issued p"
    and r: "r_payment_id r = Some (p_id p)"
  shows "store_inv (update_receipt_issued
           (s\<lparr>receipts_id_seq := n, receipts := receipts s @ [r]\<rparr>) (p_id p))"
proof -
  let ?s' = "update_receipt_issued (s\<lparr>receipts_id_seq := n, receipts := receipts s @ [r]\<rparr>) (p_id p)"
  have refs: "receipt_refs ?s' = receipt_refs s @ [p_id p]"
    using r by (simp add: update_receipt_issued_def receipt_refs_def map_filter_def)
  from inv p have fresh: "p_id p \<notin> set (receipt_refs s)"
    by (auto simp: store_inv_def receipts_flagged_def list_all_iff)
  from inv p have lt: "p_id p < payments_id_seq s"
    by (auto simp: store_inv_def list_all_iff)
  have seq: "payments_id_seq ?s' = payments_id_seq s"
    by (simp add: update_receipt_issued_def)
  have d: "distinct (receipt_refs ?s')" using inv fresh refs by (simp add: store_inv_def)
  have f: "receipts_flagged ?s'"
    unfolding receipts_flagged_def refs using inv
    by (auto simp: update_receipt_issued_def store_inv_def receipts_flagged_def list_all_iff)
  have i: "list_all (\<lambda>q. p_id q < payments_id_seq ?s') (payments ?s')"
    unfolding seq using inv
    by (auto simp: update_receipt_issued_def store_inv_def list_all_iff)
  have j: "list_all (\<lambda>i. i < payments_id_seq ?s') (receipt_refs ?s')"
    unfolding seq refs using inv lt by (simp add: store_inv_def)
  from d f i j show ?thesis unfolding store_inv_def by blast
qed

text \<open>What the receipt route does to the store: nothing, or a failed \<open>INSERT\<close>, or the
  \<open>INSERT\<close> and the \<open>UPDATE\<close> for a payment that was not marked.\<close>

lemma create_route_cases:
  assumes "create_route ext s paymentId = (s', res)"
  obtains (unchanged) "s' = s" "isl res"
  | (written) p c cr s1 ires where "select_payment_with_company s paymentId = (p, c) # tl (select_payment_with_company s paymentId)"
      "\<not> receipt_issued p" "insert_receipt s p paymentId cr = (s1, ires)"
      "(\<exists>m. ires = Inl m \<and> s' = s1 \<and> isl res)
       \<or> (\<exists>rid. ires = Inr rid \<and> s' = update_receipt_issued s1 paymentId \<and> \<not> isl res)"
proof (cases "paymentId \<le> 0 \<or> int4_max < paymentId")
  case True
  with assms have "s' = s" "isl res" by (auto simp: create_route_def split: if_splits)
  then show ?thesis by (rule unchanged)
next
  case range: False
  show ?thesis
  proof (cases "select_payment_with_company s paymentId")
    case Nil
    with assms range have "s' = s" "isl res" by (auto simp: create_route_def)
    then show ?thesis by (rule unchanged)
  next
    case (Cons row rest)
    obtain p c where row: "row = (p, c)" by (cases row)
    show ?thesis
    proof (cases "receipt_issued p")
      case True
      with assms range Cons row have "s' = s" "isl res" by (auto simp: create_route_def)
      then show ?thesis by (rule unchanged)
    next
      case unissued: False
      show ?thesis
      proof (cases "\<exists>l g k. checkbox_license_key_encrypted c = Some l \<and> l \<noteq> []
                \<and> checkbox_cashier_login c = Some g \<and> g \<noteq> []
                \<and> checkbox_cashier_pin_encrypted c = Some k \<and> k \<noteq> []")
        case False
        with assms range Cons row unissued have "s' = s" "isl res"
          by (auto simp: create_route_def split: option.splits if_splits)
        then show ?thesis by (rule unchanged)
      next
        case True
        then obtain l g k where creds: "checkbox_license_key_encrypted c = Some l" "l \<noteq> []"
          "checkbox_cashier_login c = Some g" "g \<noteq> []"
          "checkbox_cashier_pin_encrypted c = Some k" "k \<noteq> []" by blast
        show ?thesis
        proof (cases "decrypt ext l")
          case (Inl m)
          with assms range Cons row unissued creds have "s' = s" "isl res"
            by (auto simp: create_route_def)
          then show ?thesis by (rule unchanged)
        next
          case lk: (Inr licenseKey)
          show ?thesis
          proof (cases "decrypt ext k")
            case (Inl m)
            with assms range Cons row unissued creds lk have "s' = s" "isl res"
              by (auto simp: create_route_def)
            then show ?thesis by (rule unchanged)
          next
            case pk: (Inr cashierPin)
            show ?thesis
            proof (cases "checkboxIssueReceipt ext g cashierPin licenseKey (receiptData p c)")
              case (Inl m)
              with assms range Cons row unissued creds lk pk have "s' = s" "isl res"
                by (auto simp: create_route_def)
              then show ?thesis by (rule unchanged)
            next
              case (Inr cr)
              obtain s1 ires where ins: "insert_receipt s p paymentId cr = (s1, ires)"
                by (cases "insert_receipt s p paymentId cr") auto
              from Cons row have sel: "select_payment_with_company s paymentId
                  = (p, c) # tl (select_payment_with_company s paymentId)" by simp
              from assms range Cons row unissued creds lk pk Inr ins
              have "(\<exists>m. ires = Inl m \<and> s' = s1 \<and> isl res)
                \<or> (\<exists>rid. ires = Inr rid \<and> s' = update_receipt_issued s1 paymentId \<and> \<not> isl res)"
                by (cases ires) (auto simp: create_route_def)
              with sel unissued ins show ?thesis by (rule written)
            qed
          qed
        qed
      qed
    qed
  qed
qed

lemma store_inv_create_route:
  assumes "store_inv s"
  shows "store_inv (fst (create_route ext s paymentId))"
proof -
  obtain s' res where cr: "create_route ext s paymentId = (s', res)"
    by (cases "create_route ext s paymentId") auto
  have "store_inv s'"
  proof (rule create_route_cases [OF cr], goal_cases)
    case 1
    with assms show ?case by simp
  next
    case (2 p c cr s1 ires)
    from select_payment_with_company_hd [OF 2(1)]
    have pc: "p \<in> set (payments s)" "p_id p = paymentId" by simp_all
    show ?case
    proof (rule insert_receipt_cases [OF 2(3)], goal_cases)
      case (1 m)
      with 2(4) have "s' = s1" by auto
      with 1 assms show ?case using store_inv_same [of s s1] by simp
    next
      case (2 row)
      with \<open>(\<exists>m. ires = Inl m \<and> s' = s1 \<and> isl res)
       \<or> (\<exists>rid. ires = Inr rid \<and> s' = update_receipt_issued s1 paymentId \<and> \<not> isl res)\<close>
      have "s' = update_receipt_issued
           (s\<lparr>receipts_id_seq := receipts_id_seq s + 1, receipts := receipts s @ [row]\<rparr>)
           paymentId" by auto
      with 2(2) pc \<open>\<not> receipt_issued p\<close> show ?case
        using store_inv_issue [OF assms pc(1), of row "receipts_id_seq s + 1"] by simp
    qed
  qed
  with cr show ?thesis by simp
qed

lemma store_inv_new_payment:
  assumes "store_inv s" and "p_id row = payments_id_seq s" and "\<not> receipt_issued row"
  shows "store_inv (s\<lparr>payments_id_seq := payments_id_seq s + 1,
                      payments := payments s @ [row]\<rparr>)"
proof -
  from assms have "p_id row \<notin> set (receipt_refs s)"
    by (auto simp: store_inv_def list_all_iff)
  moreover have "i < payments_id_seq s \<Longrightarrow> i < payments_id_seq s + 1" for i by simp
  ultimately show ?thesis using assms
    by (auto simp: store_inv_def receipts_flagged_def list_all_iff)
qed

lemma store_inv_process_transactions:
  assumes "store_inv s"
  shows "store_inv (fst (process_transactions ext c txs (s, n, d, e)))"
  using assms
proof (induction txs arbitrary: s n d e)
  case Nil
  then show ?case by simp
next
  case (Cons tx txs)
  show ?case
  proof (rule process_transaction_cases [where ext = ext and tx = tx and c = c and s = s
        and n = n and d = d and e = e], goal_cases)
    case (1 m)
    with Cons show ?case by simp
  next
    case (2 p)
    with Cons show ?case by simp
  next
    case (3 p m s1)
    from Cons.prems 3(5,7,8) have "store_inv s1" by (rule store_inv_same)
    with 3 Cons.IH show ?case by simp
  next
    case (4 p row)
    from new_payment_row_Inr [OF 4(4)]
    have "store_inv (s\<lparr>payments_id_seq := payments_id_seq s + 1,
            payments := payments s @ [row]\<rparr>)"
      using Cons.prems by (intro store_inv_new_payment) simp_all
    with 4 Cons.IH show ?case by simp
  qed
qed

lemma store_inv_ingest_transactions:
  assumes "store_inv s" and "ingest_transactions ext companyId txs s = (s1, r)"
  shows "store_inv s1"
proof -
  obtain s' n' d' e' where pt:
    "process_transactions ext companyId txs (s, 0, 0, []) = (s', n', d', e')"
    by (cases "process_transactions ext companyId txs (s, 0, 0, [])") auto
  with store_inv_process_transactions [OF assms(1), of ext companyId txs 0 0 "[]"]
  have "store_inv s'" by simp
  with pt assms(2) show ?thesis by (simp add: ingest_transactions_def)
qed

text \<open>The fetch route leaves the store as it is or hands it to the loop.\<close>

lemma fetch_route_store:
  "fst (fetch_route ext s companyId startDate endDate) = s
   \<or> (\<exists>txs r. ingest_transactions ext companyId txs s
                 = (fst (fetch_route ext s companyId startDate endDate), r))"
proof (cases "companyId \<le> 0 \<or> int4_max < companyId")
  case True
  then show ?thesis by (auto simp: fetch_route_def)
next
  case range: False
  show ?thesis
  proof (cases "select_company s companyId")
    case Nil
    with range show ?thesis by (simp add: fetch_route_def)
  next
    case (Cons company rest)
    show ?thesis
    proof (cases "pb_merchant_id company")
      case None
      with range Cons show ?thesis by (simp add: fetch_route_def)
    next
      case m: (Some merchantId)
      show ?thesis
      proof (cases "pb_api_token_encrypted company")
        case None
        with range Cons m show ?thesis by (simp add: fetch_route_def)
      next
        case tk: (Some token)
        show ?thesis
        proof (cases "merchantId = [] \<or> token = []")
          case True
          with range Cons m tk show ?thesis by (auto simp add: fetch_route_def)
        next
          case ne: False
          show ?thesis
          proof (cases "decrypt ext token")
            case (Inl e)
            with range Cons m tk ne show ?thesis by (simp add: fetch_route_def)
          next
            case (Inr apiToken)
            define end_date where "end_date =
              (if truthy endDate then Date_parse ext (template endDate) else Some (now ext))"
            define start_date where "start_date =
              (if truthy startDate then Date_parse ext (template startDate)
               else case end_date of None \<Rightarrow> None
                    | Some e \<Rightarrow> valid_time (e - 30 * 24 * 60 * 60 * 1000))"
            from range Cons m tk ne Inr
            have fr: "fetch_route ext s companyId startDate endDate =
              (case (start_date, end_date) of
                 (Some start_time, Some end_time) \<Rightarrow>
                   (case fetchPrivatBankPayments ext merchantId apiToken start_time end_time of
                      Inl m \<Rightarrow> (s, Inl (BankFetchFailed (message_or m ''API request failed'')))
                    | Inr transactions \<Rightarrow>
                        (case ingest_transactions ext companyId transactions s of
                           (s1, result) \<Rightarrow> (s1, Inr result)))
               | _ \<Rightarrow> (s, Inl (FetchFailed ''Invalid time value'')))"
              by (simp add: fetch_route_def Let_def start_date_def end_date_def)
            show ?thesis
            proof (cases start_date)
              case None
              with fr show ?thesis by simp
            next
              case st: (Some start_time)
              show ?thesis
              proof (cases end_date)
                case None
                with fr st show ?thesis by simp
              next
                case en: (Some end_time)
                show ?thesis
                proof (cases "fetchPrivatBankPayments ext merchantId apiToken start_time end_time")
                  case (Inl e)
                  with fr st en show ?thesis by simp
                next
                  case txs: (Inr transactions)
                  obtain s1 result where
                    ing: "ingest_transactions ext companyId transactions s = (s1, result)"
                    by (cases "ingest_transactions ext companyId transactions s") auto
                  with fr st en txs
                  have "fst (fetch_route ext s companyId startDate endDate) = s1" by simp
                  with ing show ?thesis by auto
                qed
              qed
            qed
          qed
        qed
      qed
    qed
  qed
qed

lemma store_inv_fetch_route:
  assumes "store_inv s"
  shows "store_inv (fst (fetch_route ext s companyId startDate endDate))"
  using fetch_route_store [of ext s companyId startDate endDate]
proof (elim disjE exE)
  assume "fst (fetch_route ext s companyId startDate endDate) = s"
  with assms show ?thesis by simp
next
  fix txs r
  assume "ingest_transactions ext companyId txs s
            = (fst (fetch_route ext s companyId startDate endDate), r)"
  with assms show ?thesis by (rule store_inv_ingest_transactions)
qed

lemma update_receipt_issued_flags:
  "list_all (\<lambda>p. p_id p = paymentId \<longrightarrow> receipt_issued p)
     (payments (update_receipt_issued s paymentId))"
proof -
  have "list_all (\<lambda>p. p_id p = paymentId \<longrightarrow> receipt_issued p)
          (map (\<lambda>p. if p_id p = paymentId then p\<lparr>receipt_issued := True\<rparr> else p) ps)" for ps
    by (induction ps) simp_all
  then show ?thesis by (simp add: update_receipt_issued_def)
qed

lemma create_route_success:
  assumes "create_route ext s paymentId = (s', Inr r)"
  shows "receipt_refs s' = receipt_refs s @ [paymentId]
         \<and> list_all (\<lambda>p. p_id p = paymentId \<longrightarrow> receipt_issued p) (payments s')"
proof (rule create_route_cases [OF assms], goal_cases)
  case 1
  then show ?case by simp
next
  case (2 p c cr s1 ires)
  then obtain rid where ires: "ires = Inr rid"
    and s': "s' = update_receipt_issued s1 paymentId" by auto
  show ?case
  proof (rule insert_receipt_cases [OF 2(3)], goal_cases)
    case (1 m)
    with ires show ?case by simp
  next
    case (2 row)
    then have "receipt_refs s1 = receipt_refs s @ [paymentId]"
      by (simp add: receipt_refs_def map_filter_def)
    then have "receipt_refs s' = receipt_refs s @ [paymentId]"
      unfolding s' by (simp add: update_receipt_issued_def)
    moreover have "list_all (\<lambda>p. p_id p = paymentId \<longrightarrow> receipt_issued p) (payments s')"
      unfolding s' by (rule update_receipt_issued_flags)
    ultimately show ?case by blast
  qed
qed

lemma store_inv_empty: "store_inv (empty_store cs)"
  by (simp add: store_inv_def empty_store_def receipt_refs_def map_filter_def
      receipts_flagged_def)

text \<open>
  C5. As stated the claim fails. The \<open>receipts\<close> table has no uniqueness constraint on
  \<open>payment_id\<close>: with a receipt for payment 1 stored, the \<open>INSERT\<close> of a second one is
  accepted. The route runs its \<open>INSERT\<close> and its \<open>UPDATE\<close> as two statements: the store
  between them holds a receipt for a payment that is not marked, and issuing again from
  that store succeeds and leaves two receipts for the payment.
\<close>

theorem receipts_not_unique_counterexample:
  "receipt_refs demo_half_issued_store = [1]
   \<and> \<not> receipts_flagged demo_half_issued_store
   \<and> \<not> isl (snd (create_route (demo_externals [] (Inr demo_checkbox_receipt))
                    demo_half_issued_store 1))
   \<and> receipt_refs (fst (create_route (demo_externals [] (Inr demo_checkbox_receipt))
                          demo_half_issued_store 1)) = [1, 1]
   \<and> snd (insert_receipt demo_issued_store demo_pending_payment 1 demo_checkbox_receipt)
       = Inr 2
   \<and> receipt_refs (fst (insert_receipt demo_issued_store demo_pending_payment 1
                          demo_checkbox_receipt)) = [1, 1]"
  by code_simp

text \<open>
  C5, as amended. When each call of the two routes runs to its end, starting from empty
  tables, the store after every call has at most one receipt for each payment and every
  payment that a receipt references is marked as issued; this is kept by the
  \<open>receipt_issued\<close> guard of the route, not by a constraint of the store. A successful
  call of the receipt route adds one receipt for the payment and marks the payment.
\<close>

theorem one_receipt_per_payment:
  "store_inv (empty_store cs)
   \<and> (store_inv s \<longrightarrow>
        store_inv (fst (fetch_route ext s companyId startDate endDate))
        \<and> store_inv (fst (create_route ext s paymentId))
        \<and> distinct (receipt_refs (fst (create_route ext s paymentId)))
        \<and> receipts_flagged (fst (create_route ext s paymentId)))
   \<and> (\<forall>r. snd (create_route ext s paymentId) = Inr r \<longrightarrow>
        receipt_refs (fst (create_route ext s paymentId)) = receipt_refs s @ [paymentId]
        \<and> list_all (\<lambda>p. p_id p = paymentId \<longrightarrow> receipt_issued p)
             (payments (fst (create_route ext s paymentId))))"
proof (intro conjI impI allI)
  show "store_inv (empty_store cs)" by (rule store_inv_empty)
next
  assume "store_inv s"
  then show "store_inv (fst (fetch_route ext s companyId startDate endDate))"
    by (rule store_inv_fetch_route)
next
  assume "store_inv s"
  then show "store_inv (fst (create_route ext s paymentId))"
    by (rule store_inv_create_route)
next
  assume "store_inv s"
  then have "store_inv (fst (create_route ext s paymentId))"
    by (rule store_inv_create_route)
  then show "distinct (receipt_refs (fst (create_route ext s paymentId)))"
    by (simp add: store_inv_def)
next
  assume "store_inv s"
  then have "store_inv (fst (create_route ext s paymentId))"
    by (rule store_inv_create_route)
  then show "receipts_flagged (fst (create_route ext s paymentId))"
    by (simp add: store_inv_def)
next
  fix r assume "snd (create_route ext s paymentId) = Inr r"
  then have eq: "create_route ext s paymentId = (fst (create_route ext s paymentId), Inr r)"
    by (simp add: prod_eq_iff)
  from create_route_success [OF eq]
  show "receipt_refs (fst (create_route ext s paymentId)) = receipt_refs s @ [paymentId]"
    by simp
next
  fix r assume "snd (create_route ext s paymentId) = Inr r"
  then have eq: "create_route ext s paymentId = (fst (create_route ext s paymentId), Inr r)"
    by (simp add: prod_eq_iff)
  from create_route_success [OF eq]
  show "list_all (\<lambda>p. p_id p = paymentId \<longrightarrow> receipt_issued p)
             (payments (fst (create_route ext s paymentId)))"
    by simp
qed

theorem one_receipt_per_payment_witness:
  "store_inv demo_pending_store
   \<and> store_inv (fst (create_route (demo_externals [] (Inr demo_checkbox_receipt))
                       demo_pending_store 1))
   \<and> receipt_refs (fst (create_route (demo_externals [] (Inr demo_checkbox_receipt))
                          demo_pending_store 1)) = [1]"
proof -
  have h: "store_inv demo_pending_store" by code_simp
  have ok: "snd (create_route (demo_externals [] (Inr demo_checkbox_receipt))
                       demo_pending_store 1)
            = Inr \<lparr>is_receipt_id = 1, is_checkbox_receipt = demo_checkbox_receipt,
                   is_payment_id = 1, is_amount = 1500, is_sender_name = Some ''Sender'',
                   is_description = Some ''Invoice 123''\<rparr>"
    by code_simp
  have r0: "receipt_refs demo_pending_store = []" by code_simp
  from one_receipt_per_payment [of "[]" demo_pending_store
      "demo_externals [] (Inr demo_checkbox_receipt)" 1 None None 1] h ok r0
  show ?thesis by simp
qed

end
